theory Spec2Isabelle
  imports Main "HOL-Library.Word"
begin

section \<open>Strings, numbers and base64 text\<close>

text \<open>
  A JavaScript string is modelled by the list of the bytes of its UTF-8 encoding
  (\<^typ>\<open>string\<close>), so that \<open>Buffer.from(text)\<close> is the list of these bytes.
\<close>

type_synonym byte = "8 word"

definition Buffer_from :: "string \<Rightarrow> byte list" where
  "Buffer_from text = map (\<lambda>c. of_nat (of_char c)) text"

definition digitChar :: "nat \<Rightarrow> char" where
  "digitChar d = ''0123456789'' ! d"

text \<open>Decimal rendering of a number inside a template literal (\<open>`${fileId}`\<close>).\<close>

fun showNat :: "nat \<Rightarrow> string" where
  "showNat n = (if n < 10 then [digitChar n] else showNat (n div 10) @ [digitChar (n mod 10)])"

declare showNat.simps [simp del]

subsection \<open>Base64 (\<open>Buffer.toString('base64')\<close>)\<close>

definition base64Alphabet :: string where
  "base64Alphabet = ''ABCDEFGHIJKLMNOPQRSTUVWXYZabcdefghijklmnopqrstuvwxyz0123456789+/''"

definition base64Char :: "nat \<Rightarrow> char" where
  "base64Char i = base64Alphabet ! i"

fun base64 :: "byte list \<Rightarrow> string" where
  "base64 [] = []"
| "base64 [a] =
     [base64Char (unat a div 4), base64Char ((unat a mod 4) * 16), CHR ''='', CHR ''='']"
| "base64 [a, b] =
     [base64Char (unat a div 4), base64Char ((unat a mod 4) * 16 + unat b div 16),
      base64Char ((unat b mod 16) * 4), CHR ''='']"
| "base64 (a # b # c # rest) =
     [base64Char (unat a div 4), base64Char ((unat a mod 4) * 16 + unat b div 16),
      base64Char ((unat b mod 16) * 4 + unat c div 64), base64Char (unat c mod 64)]
     @ base64 rest"

text \<open>\<open>s.replace(/c/g, r)\<close> for a one-character pattern: every occurrence is replaced.\<close>

definition replaceAll :: "char \<Rightarrow> string \<Rightarrow> string \<Rightarrow> string" where
  "replaceAll c r s = concat (map (\<lambda>x. if x = c then r else [x]) s)"

definition encodeBase64Url :: "string \<Rightarrow> string" where
  "encodeBase64Url text =
     replaceAll (CHR ''='') ''''
       (replaceAll (CHR ''/'') ''_''
         (replaceAll (CHR ''+'') ''-'' (base64 (Buffer_from text))))"

text \<open>The characters that may stand in a URL path segment without escaping.\<close>

definition urlSafeChars :: "char set" where
  "urlSafeChars = set ''ABCDEFGHIJKLMNOPQRSTUVWXYZabcdefghijklmnopqrstuvwxyz0123456789-_''"

text \<open>
  The encoding as the specification words it: the standard base64 text with every
  plus sign turned into a minus sign, every slash into an underscore, and every equals
  sign dropped.
\<close>

definition encodeBase64Url_spec :: "string \<Rightarrow> string" where
  "encodeBase64Url_spec text =
     filter (\<lambda>c. c \<noteq> CHR ''='')
       (map (\<lambda>c. if c = CHR ''/'' then CHR ''_'' else c)
         (map (\<lambda>c. if c = CHR ''+'' then CHR ''-'' else c) (base64 (Buffer_from text))))"


subsection \<open>JSON text (\<open>JSON.stringify\<close>)\<close>

text \<open>
  The values the server serialises: string and boolean properties and nested objects,
  the properties of an object in insertion order.
\<close>

datatype json = JString string | JBool bool | JObject "(string \<times> json) list"

definition hexDigit :: "nat \<Rightarrow> char" where
  "hexDigit d = ''0123456789abcdef'' ! d"

definition backslash :: char where
  "backslash = CHR 0x5C"

definition dquote :: char where
  "dquote = CHR 0x22"

definition escapeChar :: "char \<Rightarrow> string" where
  "escapeChar c =
     (if c = dquote then [backslash, dquote]
      else if c = backslash then [backslash, backslash]
      else if c = CHR 0x08 then [backslash, CHR ''b'']
      else if c = CHR 0x0C then [backslash, CHR ''f'']
      else if c = CHR 0x0A then [backslash, CHR ''n'']
      else if c = CHR 0x0D then [backslash, CHR ''r'']
      else if c = CHR 0x09 then [backslash, CHR ''t'']
      else if (of_char c :: nat) < 32
        then [backslash, CHR ''u'', CHR ''0'', CHR ''0'',
              hexDigit ((of_char c :: nat) div 16), hexDigit ((of_char c :: nat) mod 16)]
      else [c])"

definition quoteString :: "string \<Rightarrow> string" where
  "quoteString s = [dquote] @ concat (map escapeChar s) @ [dquote]"

fun joinComma :: "string list \<Rightarrow> string" where
  "joinComma [] = []"
| "joinComma [x] = x"
| "joinComma (x # y # ys) = x @ '','' @ joinComma (y # ys)"

fun JSON_stringify :: "json \<Rightarrow> string" where
  "JSON_stringify (JString s) = quoteString s"
| "JSON_stringify (JBool b) = (if b then ''true'' else ''false'')"
| "JSON_stringify (JObject kvs) =
     ''{'' @ joinComma (map (\<lambda>kv. quoteString (fst kv) @ '':'' @ JSON_stringify (snd kv)) kvs)
     @ ''}''"

section \<open>The record schema (shared/schema)\<close>

definition FILE_TYPES_AUTOCAD :: string where "FILE_TYPES_AUTOCAD = ''autocad''"
definition FILE_TYPES_PDF :: string where "FILE_TYPES_PDF = ''pdf''"
definition FILE_TYPES_IMAGE :: string where "FILE_TYPES_IMAGE = ''image''"
definition FILE_TYPES_DOCUMENT :: string where "FILE_TYPES_DOCUMENT = ''document''"
definition FILE_TYPES_OTHER :: string where "FILE_TYPES_OTHER = ''other''"

definition FILE_STATUS_UPLOADING :: string where "FILE_STATUS_UPLOADING = ''uploading''"
definition FILE_STATUS_PROCESSING :: string where "FILE_STATUS_PROCESSING = ''processing''"
definition FILE_STATUS_READY :: string where "FILE_STATUS_READY = ''ready''"
definition FILE_STATUS_ERROR :: string where "FILE_STATUS_ERROR = ''error''"

text \<open>
  \<open>InsertFile\<close> is the row without the generated columns; \<open>File\<close> adds them.
  Times are milliseconds since the epoch; a nullable column is an option.
\<close>

record InsertFile =
  filename :: string
  originalName :: string
  mimeType :: string
  size_bytes :: nat
  filePath :: string
  fileType :: string
  status :: string
  errorMessage :: "string option"
  metadata :: "string option"

record File = InsertFile +
  file_id :: nat
  uploadedAt :: nat
  processedAt :: "nat option"

section \<open>The in-memory store (MemStorage)\<close>

record MemStorage =
  files :: "nat \<rightharpoonup> File"
  currentId :: nat

definition newMemStorage :: MemStorage where
  "newMemStorage = \<lparr>files = Map.empty, currentId = 1\<rparr>"

definition getFile :: "nat \<Rightarrow> MemStorage \<Rightarrow> File option" where
  "getFile i s = files s i"

text \<open>\<open>createFile\<close>: \<open>now\<close> is the value of \<open>new Date()\<close>.\<close>

definition createFile :: "nat \<Rightarrow> InsertFile \<Rightarrow> MemStorage \<Rightarrow> File \<times> MemStorage" where
  "createFile now insertFile s =
     (let i = currentId s;
          file = InsertFile.extend insertFile (File.fields i now None)
      in (file, s\<lparr>files := (files s)(i \<mapsto> file), currentId := currentId s + 1\<rparr>))"

text \<open>\<open>errorMessage || null\<close>: an absent or empty message is stored as null.\<close>

definition orNull :: "string option \<Rightarrow> string option" where
  "orNull m = (case m of None \<Rightarrow> None | Some t \<Rightarrow> if t = [] then None else Some t)"

definition updateFileStatus ::
  "nat \<Rightarrow> nat \<Rightarrow> string \<Rightarrow> string option \<Rightarrow> MemStorage \<Rightarrow> File option \<times> MemStorage" where
  "updateFileStatus now i newStatus msg s =
     (case files s i of
        None \<Rightarrow> (None, s)
      | Some file \<Rightarrow>
          let updatedFile = file\<lparr>status := newStatus,
                errorMessage := orNull msg,
                processedAt := (if newStatus = ''ready'' \<or> newStatus = ''error''
                                then Some now else processedAt file)\<rparr>
          in (Some updatedFile, s\<lparr>files := (files s)(i \<mapsto> updatedFile)\<rparr>))"

definition updateFileMetadata ::
  "nat \<Rightarrow> string \<Rightarrow> MemStorage \<Rightarrow> File option \<times> MemStorage" where
  "updateFileMetadata i md s =
     (case files s i of
        None \<Rightarrow> (None, s)
      | Some file \<Rightarrow>
          let updatedFile = file\<lparr>metadata := Some md\<rparr>
          in (Some updatedFile, s\<lparr>files := (files s)(i \<mapsto> updatedFile)\<rparr>))"

definition deleteFile :: "nat \<Rightarrow> MemStorage \<Rightarrow> bool \<times> MemStorage" where
  "deleteFile i s = (files s i \<noteq> None, s\<lparr>files := (files s)(i := None)\<rparr>)"


section \<open>The remote translation client (APSService)\<close>

text \<open>
  An exception is a value: its message and, for a rejected HTTP request that got an
  answer, the answer's status code (\<open>error.response?.status\<close>).
\<close>

record js_error =
  message :: string
  response_status :: "nat option"

record APSAuth =
  access_token :: string
  expires_in :: nat
  token_type :: string

record APSBucket =
  bucketKey :: string
  bucketOwner :: string
  createdDate :: nat
  permissions :: "string list"
  policyKey :: string

record APSUploadResult =
  upload_bucketKey :: string
  objectId :: string
  objectKey :: string
  upload_size :: nat
  contentType :: string
  location :: string

record APSJob =
  job_urn :: string
  job_result :: string
  job_type :: string
  job_region :: string
  job_version :: string
  job_progress :: string
  job_status :: string
  job_success :: string
  job_hasThumbnail :: string
  job_startedAt :: string
  job_registerTime :: string

text \<open>
  The HTTP transport (axios) and the remote service behind it are a parameter: each
  request maps the remote state \<open>'w\<close> to an answer, \<open>Inl\<close> a rejected request, and
  the next remote state. The first argument is the Authorization header's credential.
\<close>

record 'w axios =
  post_token :: "string \<Rightarrow> 'w \<Rightarrow> (js_error + APSAuth) \<times> 'w"
  post_buckets :: "string \<Rightarrow> string \<Rightarrow> string \<Rightarrow> 'w \<Rightarrow> (js_error + APSBucket) \<times> 'w"
  get_bucket_details :: "string \<Rightarrow> string \<Rightarrow> 'w \<Rightarrow> (js_error + APSBucket) \<times> 'w"
  put_object :: "string \<Rightarrow> string \<Rightarrow> string \<Rightarrow> string \<Rightarrow> 'w \<Rightarrow> (js_error + APSUploadResult) \<times> 'w"
  post_job :: "string \<Rightarrow> string \<Rightarrow> 'w \<Rightarrow> (js_error + APSJob) \<times> 'w"
  get_manifest :: "string \<Rightarrow> string \<Rightarrow> 'w \<Rightarrow> (js_error + APSJob) \<times> 'w"

record APSService =
  clientId :: string
  clientSecret :: string
  accessToken :: "string option"
  tokenExpiry :: "nat option"

text \<open>
  \<open>authenticate\<close>: a cached token is reused while it is non-empty and \<open>now\<close> is before
  its expiry; otherwise a token is requested and cached.
\<close>

definition requestToken ::
  "'w axios \<Rightarrow> nat \<Rightarrow> APSService \<times> 'w \<Rightarrow> (js_error + APSAuth) \<times> (APSService \<times> 'w)" where
  "requestToken ax now sw =
     (let this = fst sw in
      case post_token ax
             (''Basic '' @ base64 (Buffer_from (clientId this @ '':'' @ clientSecret this)))
             (snd sw) of
        (Inl e, w') \<Rightarrow> (Inl e, (this, w'))
      | (Inr auth, w') \<Rightarrow>
          (Inr auth, (this\<lparr>accessToken := Some (access_token auth),
                            tokenExpiry := Some (now + expires_in auth * 1000)\<rparr>, w')))"

definition authenticate ::
  "'w axios \<Rightarrow> nat \<Rightarrow> APSService \<times> 'w \<Rightarrow> (js_error + APSAuth) \<times> (APSService \<times> 'w)" where
  "authenticate ax now sw =
     (case (accessToken (fst sw), tokenExpiry (fst sw)) of
        (Some tok, Some expiry) \<Rightarrow>
          if tok \<noteq> [] \<and> now < expiry
          then (Inr \<lparr>access_token = tok, expires_in = (expiry - now) div 1000,
                     token_type = ''Bearer''\<rparr>, sw)
          else requestToken ax now sw
      | _ \<Rightarrow> requestToken ax now sw)"

text \<open>
  \<open>createBucket\<close>: the bucket is posted with policy \<open>temporary\<close>; when the request is
  rejected with status 409 the existing bucket's details are fetched and returned; any
  other rejection is rethrown.
\<close>

definition createBucket ::
  "'w axios \<Rightarrow> nat \<Rightarrow> string \<Rightarrow> APSService \<times> 'w \<Rightarrow> (js_error + APSBucket) \<times> (APSService \<times> 'w)" where
  "createBucket ax now key sw =
     (case authenticate ax now sw of
        (Inl e, sw1) \<Rightarrow> (Inl e, sw1)
      | (Inr auth, (this, w1)) \<Rightarrow>
          (case post_buckets ax (''Bearer '' @ access_token auth) key ''temporary'' w1 of
             (Inr data, w2) \<Rightarrow> (Inr data, (this, w2))
           | (Inl error, w2) \<Rightarrow>
               if response_status error = Some 409
               then (case get_bucket_details ax (''Bearer '' @ access_token auth) key w2 of
                       (Inr data, w3) \<Rightarrow> (Inr data, (this, w3))
                     | (Inl e, w3) \<Rightarrow> (Inl e, (this, w3)))
               else (Inl error, (this, w2))))"

definition uploadFile ::
  "'w axios \<Rightarrow> nat \<Rightarrow> string \<Rightarrow> string \<Rightarrow> string \<Rightarrow> APSService \<times> 'w
     \<Rightarrow> (js_error + APSUploadResult) \<times> (APSService \<times> 'w)" where
  "uploadFile ax now bKey oKey path sw =
     (case authenticate ax now sw of
        (Inl e, sw1) \<Rightarrow> (Inl e, sw1)
      | (Inr auth, (this, w1)) \<Rightarrow>
          (case put_object ax (''Bearer '' @ access_token auth) bKey oKey path w1 of
             (r, w2) \<Rightarrow> (r, (this, w2))))"

definition translateFile ::
  "'w axios \<Rightarrow> nat \<Rightarrow> string \<Rightarrow> APSService \<times> 'w \<Rightarrow> (js_error + APSJob) \<times> (APSService \<times> 'w)" where
  "translateFile ax now urn sw =
     (case authenticate ax now sw of
        (Inl e, sw1) \<Rightarrow> (Inl e, sw1)
      | (Inr auth, (this, w1)) \<Rightarrow>
          (case post_job ax (''Bearer '' @ access_token auth) urn w1 of
             (r, w2) \<Rightarrow> (r, (this, w2))))"

definition getTranslationStatus ::
  "'w axios \<Rightarrow> nat \<Rightarrow> string \<Rightarrow> APSService \<times> 'w \<Rightarrow> (js_error + APSJob) \<times> (APSService \<times> 'w)" where
  "getTranslationStatus ax now urn sw =
     (case authenticate ax now sw of
        (Inl e, sw1) \<Rightarrow> (Inl e, sw1)
      | (Inr auth, (this, w1)) \<Rightarrow>
          (case get_manifest ax (''Bearer '' @ access_token auth) urn w1 of
             (r, w2) \<Rightarrow> (r, (this, w2))))"


section \<open>The conversion pipeline (routes)\<close>

text \<open>
  The server's state: the store, the client's token cache, the remote service, the
  clock, and the pending timers, ordered by due time (timers due together fire in the
  order they were set). Two fields record what happened and are read by no code: the
  calls made to the client, each with its time and the id of the file whose pipeline
  made it, and the rejections no handler caught.
  A remote call takes no time on this clock; it advances when a timer fires.
\<close>

datatype apsCall =
    CreateBucketCall string
  | UploadFileCall string string string
  | TranslateFileCall string
  | GetTranslationStatusCall string

text \<open>
  A timer's callback with the variables it closes over: the callback of the
  standard path, and \<open>checkStatus\<close> with \<open>fileId\<close>, \<open>urn\<close>, \<open>bucketKey\<close>,
  \<open>objectKey\<close> and the current value of \<open>attempts\<close>.
\<close>

datatype task =
    StandardReady nat
  | CheckStatus nat string string string nat

record 'w sys =
  storage :: MemStorage
  apsService :: APSService
  remote :: 'w
  clock :: nat
  timers :: "(nat \<times> task) list"
  remoteCalls :: "(nat \<times> nat \<times> apsCall) list"
  unhandledRejections :: "js_error list"

fun enqueue :: "nat \<times> task \<Rightarrow> (nat \<times> task) list \<Rightarrow> (nat \<times> task) list" where
  "enqueue x [] = [x]"
| "enqueue x (y # ys) = (if fst x < fst y then x # y # ys else y # enqueue x ys)"

definition setTimeout :: "task \<Rightarrow> nat \<Rightarrow> 'w sys \<Rightarrow> 'w sys" where
  "setTimeout t delay st = st\<lparr>timers := enqueue (clock st + delay, t) (timers st)\<rparr>"

definition storage_updateFileStatus ::
  "nat \<Rightarrow> string \<Rightarrow> string option \<Rightarrow> 'w sys \<Rightarrow> 'w sys" where
  "storage_updateFileStatus i newStatus msg st =
     st\<lparr>storage := snd (updateFileStatus (clock st) i newStatus msg (storage st))\<rparr>"

definition storage_updateFileMetadata :: "nat \<Rightarrow> string \<Rightarrow> 'w sys \<Rightarrow> 'w sys" where
  "storage_updateFileMetadata i md st =
     st\<lparr>storage := snd (updateFileMetadata i md (storage st))\<rparr>"

text \<open>
  A call of a client method: it runs at the current time and is recorded with the id
  of the file whose pipeline makes it.
\<close>

definition apsCalled ::
  "nat \<Rightarrow> apsCall \<Rightarrow> (nat \<Rightarrow> APSService \<times> 'w \<Rightarrow> (js_error + 'a) \<times> (APSService \<times> 'w))
     \<Rightarrow> 'w sys \<Rightarrow> (js_error + 'a) \<times> 'w sys" where
  "apsCalled fileId c method st =
     (case method (clock st) (apsService st, remote st) of
        (r, (this, w)) \<Rightarrow>
          (r, st\<lparr>apsService := this, remote := w,
                 remoteCalls := remoteCalls st @ [(clock st, fileId, c)]\<rparr>))"

definition maxAttempts :: nat where
  "maxAttempts = 30"

definition standardMetadata :: json where
  "standardMetadata = JObject [(''viewerType'', JString ''standard''), (''processed'', JBool True)]"

definition jobJson :: "APSJob \<Rightarrow> json" where
  "jobJson j = JObject
     [(''urn'', JString (job_urn j)), (''result'', JString (job_result j)),
      (''type'', JString (job_type j)), (''region'', JString (job_region j)),
      (''version'', JString (job_version j)), (''progress'', JString (job_progress j)),
      (''status'', JString (job_status j)), (''success'', JString (job_success j)),
      (''hasThumbnail'', JString (job_hasThumbnail j)),
      (''startedAt'', JString (job_startedAt j)),
      (''registerTime'', JString (job_registerTime j))]"

definition apsMetadata :: "string \<Rightarrow> string \<Rightarrow> string \<Rightarrow> APSJob \<Rightarrow> json" where
  "apsMetadata urn bKey oKey manifest = JObject
     [(''viewerType'', JString ''aps''), (''urn'', JString urn),
      (''bucketKey'', JString bKey), (''objectKey'', JString oKey),
      (''status'', JString ''translated''), (''derivatives'', jobJson manifest)]"

text \<open>
  The callback of the standard path. Its two writes are two awaited calls:
  \<open>standardReady_await1\<close> is the state at the suspension between them.
\<close>

definition standardReady_await1 :: "nat \<Rightarrow> 'w sys \<Rightarrow> 'w sys" where
  "standardReady_await1 fileId st = storage_updateFileStatus fileId FILE_STATUS_READY None st"

definition standardReady :: "nat \<Rightarrow> 'w sys \<Rightarrow> 'w sys" where
  "standardReady fileId st =
     storage_updateFileMetadata fileId (JSON_stringify standardMetadata)
       (standardReady_await1 fileId st)"

text \<open>
  \<open>checkStatus\<close>: one poll of the manifest. A rejected poll rejects the promise of
  \<open>checkStatus\<close>, which the timer that called it does not handle.
\<close>

definition checkStatus_success_await1 :: "nat \<Rightarrow> 'w sys \<Rightarrow> 'w sys" where
  "checkStatus_success_await1 fileId st =
     storage_updateFileStatus fileId FILE_STATUS_READY None st"

definition checkStatus ::
  "'w axios \<Rightarrow> nat \<Rightarrow> string \<Rightarrow> string \<Rightarrow> string \<Rightarrow> nat \<Rightarrow> 'w sys \<Rightarrow> 'w sys" where
  "checkStatus ax fileId urn bKey oKey attempts0 st =
     (let attempts = attempts0 + 1 in
      case apsCalled fileId (GetTranslationStatusCall urn) (\<lambda>now. getTranslationStatus ax now urn) st of
        (Inl e, st1) \<Rightarrow> st1\<lparr>unhandledRejections := unhandledRejections st1 @ [e]\<rparr>
      | (Inr manifest, st1) \<Rightarrow>
          if job_status manifest = ''success'' then
            storage_updateFileMetadata fileId
              (JSON_stringify (apsMetadata urn bKey oKey manifest))
              (checkStatus_success_await1 fileId st1)
          else if job_status manifest = ''failed'' then
            storage_updateFileStatus fileId FILE_STATUS_ERROR (Some ''APS translation failed'') st1
          else if attempts < maxAttempts then
            setTimeout (CheckStatus fileId urn bKey oKey attempts) 10000 st1
          else
            storage_updateFileStatus fileId FILE_STATUS_ERROR (Some ''Translation timeout'') st1)"

text \<open>
  The \<open>catch (apsError)\<close> block of \<open>processFile\<close>. The outer \<open>catch\<close> of
  \<open>processFile\<close> has no branch here: the store raises nothing, and every rejection of
  an awaited client call is caught by the inner block.
\<close>

definition catch_apsError :: "nat \<Rightarrow> js_error \<Rightarrow> 'w sys \<Rightarrow> 'w sys" where
  "catch_apsError fileId apsError st =
     storage_updateFileStatus fileId FILE_STATUS_ERROR
       (Some (''APS error: '' @ message apsError)) st"

definition processFile ::
  "'w axios \<Rightarrow> nat \<Rightarrow> string \<Rightarrow> string \<Rightarrow> string \<Rightarrow> 'w sys \<Rightarrow> 'w sys" where
  "processFile ax fileId fType path origName st =
     (if fType = FILE_TYPES_AUTOCAD then
        let st1 = storage_updateFileStatus fileId FILE_STATUS_PROCESSING None st;
            bKey = ''autocad-viewer-'' @ showNat (clock st1);
            oKey = showNat fileId @ ''-'' @ origName
        in case apsCalled fileId (CreateBucketCall bKey) (\<lambda>now. createBucket ax now bKey) st1 of
             (Inl apsError, st2) \<Rightarrow> catch_apsError fileId apsError st2
           | (Inr bucket, st2) \<Rightarrow>
               (case apsCalled fileId (UploadFileCall bKey oKey path)
                       (\<lambda>now. uploadFile ax now bKey oKey path) st2 of
                  (Inl apsError, st3) \<Rightarrow> catch_apsError fileId apsError st3
                | (Inr uploadResult, st3) \<Rightarrow>
                    let urn = encodeBase64Url (objectId uploadResult) in
                    (case apsCalled fileId (TranslateFileCall urn)
                            (\<lambda>now. translateFile ax now urn) st3 of
                       (Inl apsError, st4) \<Rightarrow> catch_apsError fileId apsError st4
                     | (Inr job, st4) \<Rightarrow>
                         setTimeout (CheckStatus fileId urn bKey oKey 0) 10000 st4))
      else setTimeout (StandardReady fileId) 1000 st)"

fun runTask :: "'w axios \<Rightarrow> task \<Rightarrow> 'w sys \<Rightarrow> 'w sys" where
  "runTask ax (StandardReady fileId) st = standardReady fileId st"
| "runTask ax (CheckStatus fileId urn bKey oKey attempts0) st =
     checkStatus ax fileId urn bKey oKey attempts0 st"

text \<open>
  The handler of \<open>PATCH /api/files/:id/status\<close>, which the retry button calls with
  status \<open>processing\<close>.
\<close>

datatype response = Json200 File | NotFound404

definition patchFileStatus ::
  "nat \<Rightarrow> string \<Rightarrow> string option \<Rightarrow> 'w sys \<Rightarrow> response \<times> 'w sys" where
  "patchFileStatus i newStatus msg st =
     (case updateFileStatus (clock st) i newStatus msg (storage st) of
        (None, s') \<Rightarrow> (NotFound404, st\<lparr>storage := s'\<rparr>)
      | (Some updatedFile, s') \<Rightarrow> (Json200 updatedFile, st\<lparr>storage := s'\<rparr>))"

text \<open>
  The timers fire in order until none is pending. A task's budget bounds the number of
  timers it can still cause, so the loop ends.
\<close>

fun taskBudget :: "task \<Rightarrow> nat" where
  "taskBudget (StandardReady fileId) = 1"
| "taskBudget (CheckStatus fileId urn bKey oKey attempts0) = 1 + (29 - attempts0)"

definition budget :: "(nat \<times> task) list \<Rightarrow> nat" where
  "budget ts = sum_list (map (\<lambda>x. taskBudget (snd x)) ts)"

function run :: "'w axios \<Rightarrow> 'w sys \<Rightarrow> 'w sys" where
  "run ax st =
     (case timers st of
        [] \<Rightarrow> st
      | (due, t) # rest \<Rightarrow>
          run ax (runTask ax t (st\<lparr>timers := rest, clock := max (clock st) due\<rparr>)))"
  by pat_completeness auto
termination
proof (relation "measure (\<lambda>(ax, st). budget (timers st))")
  show "wf (measure (\<lambda>(ax, st). budget (timers st)))" by simp
next
  fix ax :: "'w axios" and st :: "'w sys" and x rest due t
  assume tm: "timers st = x # rest" "(due, t) = x"
  define st0 where "st0 = st\<lparr>timers := rest, clock := max (clock st) due\<rparr>"
  have enq: "budget (enqueue y ts) = taskBudget (snd y) + budget ts" for y ts
    by (induction ts) (auto simp add: budget_def)
  have before: "budget (timers st) = taskBudget t + budget (timers st0)"
    using tm by (auto simp add: budget_def st0_def)
  have after: "budget (timers (runTask ax t st0)) < taskBudget t + budget (timers st0)"
  proof (cases t)
    case (StandardReady i)
    then show ?thesis
      by (simp add: standardReady_def standardReady_await1_def
          storage_updateFileStatus_def storage_updateFileMetadata_def)
  next
    case (CheckStatus i urn b k a)
    obtain r st1 where c:
      "apsCalled i (GetTranslationStatusCall urn) (\<lambda>now. getTranslationStatus ax now urn) st0
         = (r, st1)"
      by (cases "apsCalled i (GetTranslationStatusCall urn)
                   (\<lambda>now. getTranslationStatus ax now urn) st0")
    have t1: "timers st1 = timers st0"
      using c by (auto simp add: apsCalled_def split: prod.splits)
    show ?thesis
      using CheckStatus c t1
      by (cases r)
        (auto simp add: checkStatus_def checkStatus_success_await1_def setTimeout_def enq
          maxAttempts_def storage_updateFileStatus_def storage_updateFileMetadata_def)
  qed
  show "((ax, runTask ax t (st\<lparr>timers := rest, clock := max (clock st) due\<rparr>)), (ax, st))
      \<in> measure (\<lambda>(ax, st). budget (timers st))"
    using before after by (simp add: st0_def)
qed

declare run.simps [simp del]

section \<open>A scripted remote service and sample states\<close>

text \<open>
  A stand-in for the remote service, the concrete input of the examples below: it
  keeps the buckets created so far, answers a second creation of a key with status 409,
  accepts every upload and job, and answers the manifest polls from a script (status
  \<open>inprogress\<close> once the script is used up).
\<close>

record fakeRemote =
  fr_buckets :: "APSBucket list"
  fr_manifests :: "(js_error + APSJob) list"

definition jobWithStatus :: "string \<Rightarrow> string \<Rightarrow> APSJob" where
  "jobWithStatus urn st =
     \<lparr>job_urn = urn, job_result = ''created'', job_type = ''manifest'', job_region = ''US'',
      job_version = ''1.0'', job_progress = ''0% complete'', job_status = st,
      job_success = ''0%'', job_hasThumbnail = ''false'', job_startedAt = ''-'',
      job_registerTime = ''-''\<rparr>"

definition httpError :: "nat \<Rightarrow> js_error" where
  "httpError code =
     \<lparr>message = ''Request failed with status code '' @ showNat code,
      response_status = Some code\<rparr>"

definition networkError :: js_error where
  "networkError = \<lparr>message = ''Network Error'', response_status = None\<rparr>"

definition fakeAxios :: "fakeRemote axios" where
  "fakeAxios =
     \<lparr>post_token = (\<lambda>cred w.
        (Inr \<lparr>access_token = ''tok'', expires_in = 3600, token_type = ''Bearer''\<rparr>, w)),
      post_buckets = (\<lambda>cred key policy w.
        case find (\<lambda>b. bucketKey b = key) (fr_buckets w) of
          Some b \<Rightarrow> (Inl (httpError 409), w)
        | None \<Rightarrow>
            (let b = \<lparr>bucketKey = key, bucketOwner = ''owner'',
                      createdDate = length (fr_buckets w), permissions = [],
                      policyKey = policy\<rparr>
             in (Inr b, w\<lparr>fr_buckets := fr_buckets w @ [b]\<rparr>))),
      get_bucket_details = (\<lambda>cred key w.
        case find (\<lambda>b. bucketKey b = key) (fr_buckets w) of
          Some b \<Rightarrow> (Inr b, w)
        | None \<Rightarrow> (Inl (httpError 404), w)),
      put_object = (\<lambda>cred bKey oKey path w.
        (Inr \<lparr>upload_bucketKey = bKey,
              objectId = ''urn:adsk.objects:os.object:'' @ bKey @ ''/'' @ oKey,
              objectKey = oKey, upload_size = 10,
              contentType = ''application/octet-stream'', location = ''-''\<rparr>, w)),
      post_job = (\<lambda>cred urn w. (Inr (jobWithStatus urn ''inprogress''), w)),
      get_manifest = (\<lambda>cred urn w.
        case fr_manifests w of
          [] \<Rightarrow> (Inr (jobWithStatus urn ''inprogress''), w)
        | r # rs \<Rightarrow> (r, w\<lparr>fr_manifests := rs\<rparr>))\<rparr>"

definition sampleService :: APSService where
  "sampleService = \<lparr>clientId = ''id'', clientSecret = ''secret'',
                     accessToken = None, tokenExpiry = None\<rparr>"

text \<open>
  The row the upload handler creates for one received file: status \<open>uploading\<close>, no
  error message, no metadata.
\<close>

definition uploadedRow :: "string \<Rightarrow> string \<Rightarrow> string \<Rightarrow> InsertFile" where
  "uploadedRow origName mime fType =
     \<lparr>filename = ''f1'', originalName = origName, mimeType = mime, size_bytes = 10,
      filePath = ''uploads/f1'', fileType = fType, status = FILE_STATUS_UPLOADING,
      errorMessage = None, metadata = None\<rparr>"

text \<open>The server at time 0 right after one upload, before \<open>processFile\<close> is called.\<close>

definition afterUpload ::
  "string \<Rightarrow> string \<Rightarrow> string \<Rightarrow> (js_error + APSJob) list \<Rightarrow> fakeRemote sys" where
  "afterUpload origName mime fType script =
     \<lparr>storage = snd (createFile 0 (uploadedRow origName mime fType) newMemStorage),
      apsService = sampleService,
      remote = \<lparr>fr_buckets = [], fr_manifests = script\<rparr>,
      clock = 0, timers = [], remoteCalls = [], unhandledRejections = []\<rparr>"

text \<open>What a reader of the record sees: status, error message, metadata, processing time.\<close>

definition observe ::
  "nat \<Rightarrow> 'w sys \<Rightarrow> (string \<times> string option \<times> string option \<times> nat option) option" where
  "observe i st =
     map_option (\<lambda>f. (status f, errorMessage f, metadata f, processedAt f))
       (files (storage st) i)"

definition pollTimes :: "'w sys \<Rightarrow> nat list" where
  "pollTimes st =
     map fst (filter (\<lambda>c. case snd (snd c) of GetTranslationStatusCall u \<Rightarrow> True
                                           | _ \<Rightarrow> False)
       (remoteCalls st))"

section \<open>Sequences of store operations\<close>

text \<open>
  The operations that reach the store: the upload handler creating a row (always with
  status \<open>uploading\<close>, no error message and no metadata), a status update (from the
  pipeline or from the PATCH handler, with any status text), a metadata update, and a
  deletion. Each carries the time at which it runs where the store reads the clock.
\<close>

datatype storeOp =
    Upload nat InsertFile
  | SetStatus nat nat string "string option"
  | SetMetadata nat string
  | Delete nat

fun applyOp :: "storeOp \<Rightarrow> MemStorage \<Rightarrow> MemStorage" where
  "applyOp (Upload now row) s =
     snd (createFile now
            (row\<lparr>status := FILE_STATUS_UPLOADING, errorMessage := None, metadata := None\<rparr>) s)"
| "applyOp (SetStatus now i newStatus msg) s = snd (updateFileStatus now i newStatus msg s)"
| "applyOp (SetMetadata i md) s = snd (updateFileMetadata i md s)"
| "applyOp (Delete i) s = snd (deleteFile i s)"

definition applyOps :: "storeOp list \<Rightarrow> MemStorage \<Rightarrow> MemStorage" where
  "applyOps ops s = foldl (\<lambda>acc op. applyOp op acc) s ops"

text \<open>Every record whose status is \<open>ready\<close> or \<open>error\<close> has a processing time.\<close>

definition processedInv :: "MemStorage \<Rightarrow> bool" where
  "processedInv s =
     (\<forall>i f. files s i = Some f \<longrightarrow> status f = ''ready'' \<or> status f = ''error''
        \<longrightarrow> processedAt f \<noteq> None)"


text \<open>What a reader sees of a record in a store: its status and processing time.\<close>

definition statusAndTime :: "nat \<Rightarrow> MemStorage \<Rightarrow> (string \<times> nat option) option" where
  "statusAndTime i s = map_option (\<lambda>f. (status f, processedAt f)) (files s i)"

definition sampleOps :: "storeOp list" where
  "sampleOps =
     [Upload 0 (uploadedRow ''plan.dwg'' ''application/acad'' ''autocad''),
      SetStatus 5 1 ''error'' (Some ''Translation timeout''),
      SetStatus 9 1 ''processing'' None]"

text \<open>A bucket that already exists on the scripted remote service.\<close>

definition existingBucket :: APSBucket where
  "existingBucket =
     \<lparr>bucketKey = ''autocad-viewer-0'', bucketOwner = ''owner'', createdDate = 0,
      permissions = [], policyKey = ''temporary''\<rparr>"

text \<open>The server right after the upload of \<open>spec.pdf\<close>, detected as \<open>pdf\<close>.\<close>

definition pdfUpload :: "fakeRemote sys" where
  "pdfUpload = afterUpload ''spec.pdf'' ''application/pdf'' ''pdf'' []"

text \<open>
  The server right after the upload of \<open>plan.dwg\<close>, detected as \<open>autocad\<close>, with a
  script for the manifest polls.
\<close>

definition dwgUpload :: "(js_error + APSJob) list \<Rightarrow> fakeRemote sys" where
  "dwgUpload script = afterUpload ''plan.dwg'' ''application/acad'' ''autocad'' script"



text \<open>The status a reader sees.\<close>

definition statusOf :: "nat \<Rightarrow> 'w sys \<Rightarrow> string option" where
  "statusOf i st = map_option status (files (storage st) i)"


section \<open>The server as a whole\<close>

text \<open>
  One pass of the upload handler's loop, for one received file: \<open>fileData\<close> is
  built with status \<open>uploading\<close> and neither message nor metadata, the record is
  created, and \<open>processFile\<close> is called with the new id and the file's detected type,
  path and original name. The argument holds the fields of \<open>fileData\<close> taken from the
  received file, the detected type among them. A call of the remote client is answered
  within the turn that makes it, so the set-up of a drawing's pipeline (bucket, upload,
  job) is over when the pass ends; what is left of the pipeline is its timer.
\<close>

definition uploadOne :: "'w axios \<Rightarrow> InsertFile \<Rightarrow> 'w sys \<Rightarrow> 'w sys" where
  "uploadOne ax file st =
     (let fileData = file\<lparr>status := FILE_STATUS_UPLOADING, errorMessage := None,
                          metadata := None\<rparr>;
          saved = createFile (clock st) fileData (storage st)
      in processFile ax (file_id (fst saved)) (fileType file) (filePath file)
           (originalName file) (st\<lparr>storage := snd saved\<rparr>))"

text \<open>The handler of \<open>DELETE /api/files/:id\<close>.\<close>

datatype deleteResponse = DeletedOk | DeleteNotFound

definition deleteFileRoute :: "nat \<Rightarrow> 'w sys \<Rightarrow> deleteResponse \<times> 'w sys" where
  "deleteFileRoute i st =
     (case deleteFile i (storage st) of
        (deleted, s') \<Rightarrow>
          (if deleted then DeletedOk else DeleteNotFound, st\<lparr>storage := s'\<rparr>))"

text \<open>
  \<open>getViewerToken\<close> and the handler of \<open>GET /api/aps/token\<close>, which calls it: the
  token cache and the remote service may change, nothing else does.
\<close>

definition getViewerToken ::
  "'w axios \<Rightarrow> nat \<Rightarrow> APSService \<times> 'w \<Rightarrow> (js_error + string) \<times> (APSService \<times> 'w)" where
  "getViewerToken ax now sw =
     (case authenticate ax now sw of
        (Inl e, sw1) \<Rightarrow> (Inl e, sw1)
      | (Inr auth, sw1) \<Rightarrow> (Inr (access_token auth), sw1))"

definition tokenRoute :: "'w axios \<Rightarrow> 'w sys \<Rightarrow> (js_error + string) \<times> 'w sys" where
  "tokenRoute ax st =
     (case getViewerToken ax (clock st) (apsService st, remote st) of
        (r, (this, w)) \<Rightarrow> (r, st\<lparr>apsService := this, remote := w\<rparr>))"

text \<open>The next timer fires: one turn of the timer loop.\<close>

definition fire :: "'w axios \<Rightarrow> 'w sys \<Rightarrow> 'w sys" where
  "fire ax st =
     (case timers st of
        [] \<Rightarrow> st
      | (due, t) # rest \<Rightarrow> runTask ax t (st\<lparr>timers := rest, clock := max (clock st) due\<rparr>))"

text \<open>Time passes, up to the moment the next timer is due.\<close>

definition elapse :: "nat \<Rightarrow> 'w sys \<Rightarrow> 'w sys" where
  "elapse n st =
     st\<lparr>clock := (case timers st of
                     [] \<Rightarrow> clock st + n
                   | (due, t) # rest \<Rightarrow> min (clock st + n) (max (clock st) due))\<rparr>"

text \<open>
  What happens to a running server: a file is uploaded, a status is patched, a record
  is deleted, a viewer token is requested, time passes, the next timer fires. The
  other routes only read.
\<close>

datatype event =
    Uploaded InsertFile
  | Patched nat string "string option"
  | Deleted nat
  | TokenRequested
  | Elapsed nat
  | Fired

fun handle :: "'w axios \<Rightarrow> event \<Rightarrow> 'w sys \<Rightarrow> 'w sys" where
  "handle ax (Uploaded file) st = uploadOne ax file st"
| "handle ax (Patched i newStatus msg) st = snd (patchFileStatus i newStatus msg st)"
| "handle ax (Deleted i) st = snd (deleteFileRoute i st)"
| "handle ax TokenRequested st = snd (tokenRoute ax st)"
| "handle ax (Elapsed n) st = elapse n st"
| "handle ax Fired st = fire ax st"

definition serve :: "'w axios \<Rightarrow> event list \<Rightarrow> 'w sys \<Rightarrow> 'w sys" where
  "serve ax evs st = foldl (\<lambda>s e. handle ax e s) st evs"

text \<open>The server when it starts: an empty store, no token, no timer, time 0.\<close>

definition startServer :: "string \<Rightarrow> string \<Rightarrow> 'w \<Rightarrow> 'w sys" where
  "startServer cid secret w =
     \<lparr>storage = newMemStorage,
      apsService = \<lparr>clientId = cid, clientSecret = secret, accessToken = None,
                    tokenExpiry = None\<rparr>,
      remote = w, clock = 0, timers = [], remoteCalls = [], unhandledRejections = []\<rparr>"

text \<open>The record a request addresses, and the requests that leave a record alone.\<close>

fun eventFile :: "event \<Rightarrow> nat option" where
  "eventFile (Patched i newStatus msg) = Some i"
| "eventFile (Deleted i) = Some i"
| "eventFile e = None"

definition leaveAlone :: "nat \<Rightarrow> event list \<Rightarrow> bool" where
  "leaveAlone i evs = list_all (\<lambda>e. eventFile e \<noteq> Some i) evs"


text \<open>The file a timer's callback belongs to, and what belongs to one file.\<close>

fun taskFile :: "task \<Rightarrow> nat" where
  "taskFile (StandardReady fileId) = fileId"
| "taskFile (CheckStatus fileId urn bKey oKey attempts0) = fileId"

definition ownTasks :: "nat \<Rightarrow> (nat \<times> task) list \<Rightarrow> (nat \<times> task) list" where
  "ownTasks i ts = filter (\<lambda>x. taskFile (snd x) = i) ts"

definition callsFor :: "nat \<Rightarrow> 'w sys \<Rightarrow> (nat \<times> nat \<times> apsCall) list" where
  "callsFor i st = filter (\<lambda>c. fst (snd c) = i) (remoteCalls st)"

definition pollTimesFor :: "nat \<Rightarrow> 'w sys \<Rightarrow> nat list" where
  "pollTimesFor i st =
     map fst (filter (\<lambda>c. case snd (snd c) of GetTranslationStatusCall u \<Rightarrow> True
                                           | _ \<Rightarrow> False)
       (callsFor i st))"

text \<open>
  Properties of every state the server reaches: the timers are ordered by due time and
  none is due before the current time, and every pending callback and every recorded
  call belongs to a file id already given out.
\<close>

definition wellTimed :: "'w sys \<Rightarrow> bool" where
  "wellTimed st =
     (sorted (map fst (timers st)) \<and> (\<forall>x \<in> set (timers st). clock st \<le> fst x))"

definition sane :: "'w sys \<Rightarrow> bool" where
  "sane st =
     (wellTimed st
      \<and> (\<forall>x \<in> set (timers st). taskFile (snd x) < currentId (storage st))
      \<and> (\<forall>c \<in> set (remoteCalls st). fst (snd c) < currentId (storage st)))"

text \<open>What one step made for file \<open>i\<close> may change from \<open>s\<close> to \<open>s'\<close>.\<close>

definition stepOf :: "nat \<Rightarrow> 'w sys \<Rightarrow> 'w sys \<Rightarrow> bool" where
  "stepOf i s s' =
     (clock s' = clock s
      \<and> currentId (storage s') = currentId (storage s)
      \<and> (\<forall>j. j \<noteq> i \<longrightarrow> files (storage s') j = files (storage s) j)
      \<and> (\<forall>j. j \<noteq> i \<longrightarrow> callsFor j s' = callsFor j s)
      \<and> (\<forall>c \<in> set (remoteCalls s'). c \<in> set (remoteCalls s) \<or> fst (snd c) = i)
      \<and> (timers s' = timers s
          \<or> (\<exists>d t. taskFile t = i \<and> timers s' = enqueue (clock s + d, t) (timers s))))"

text \<open>What a state holds for file \<open>i\<close>: its record, the calls made for it, its timers.\<close>

definition ownView ::
  "nat \<Rightarrow> 'w sys \<Rightarrow> File option \<times> (nat \<times> nat \<times> apsCall) list \<times> (nat \<times> task) list" where
  "ownView i st = (files (storage st) i, callsFor i st, ownTasks i (timers st))"

text \<open>
  The standard path of file \<open>i\<close>, whose callback is due at \<open>t1\<close>: either the callback
  is pending and the record as created, or it has run and the record is ready. No call
  has been made for the file.
\<close>

definition standardPhase :: "nat \<Rightarrow> nat \<Rightarrow> 'w sys \<Rightarrow> bool" where
  "standardPhase i t1 s =
     (sane s \<and> i < currentId (storage s) \<and> callsFor i s = []
      \<and> (ownTasks i (timers s) = [(t1, StandardReady i)]
            \<and> observe i s = Some (FILE_STATUS_UPLOADING, None, None, None)
          \<or> ownTasks i (timers s) = []
            \<and> observe i s = Some (FILE_STATUS_READY, None,
                  Some (JSON_stringify standardMetadata), Some t1)))"

text \<open>The row of \<open>plan.dwg\<close> and of \<open>spec.pdf\<close> as received by the upload handler.\<close>

definition dwgFile :: InsertFile where
  "dwgFile = uploadedRow ''plan.dwg'' ''application/acad'' ''autocad''"

definition pdfFile :: InsertFile where
  "pdfFile = uploadedRow ''spec.pdf'' ''application/pdf'' ''pdf''"

text \<open>The server once started, with the scripted remote service.\<close>

definition sampleServer :: "(js_error + APSJob) list \<Rightarrow> fakeRemote sys" where
  "sampleServer script =
     startServer ''id'' ''secret'' \<lparr>fr_buckets = [], fr_manifests = script\<rparr>"










text \<open>
  What holds of the standard path of file \<open>i\<close> whatever requests address its record:
  no call has been made for the file, and its pending callbacks are standard ones.
\<close>

definition standardOnly :: "nat \<Rightarrow> 'w sys \<Rightarrow> bool" where
  "standardOnly i s =
     (sane s \<and> i < currentId (storage s) \<and> callsFor i s = []
      \<and> list_all (\<lambda>x. snd x = StandardReady i) (ownTasks i (timers s)))"

section \<open>The URL-safe encoding of the object id\<close>

lemma base64Char_mem: "i < 64 \<Longrightarrow> base64Char i \<in> set base64Alphabet"
  unfolding base64Char_def by (rule nth_mem) (simp add: base64Alphabet_def)

lemma unat_byte: "unat (a::byte) < 256"
  using unsigned_less[of a, where 'a=nat] by simp

lemma base64_chars: "set (base64 bs) \<subseteq> insert (CHR ''='') (set base64Alphabet)"
proof (induction bs rule: base64.induct)
  case 1 show ?case by simp
next
  case (2 a)
  have "unat a div 4 < 64" "(unat a mod 4) * 16 < 64" using unat_byte[of a] by auto
  then show ?case by (simp add: base64Char_mem)
next
  case (3 a b)
  have "unat a div 4 < 64" "(unat a mod 4) * 16 + unat b div 16 < 64" "(unat b mod 16) * 4 < 64"
    using unat_byte[of a] unat_byte[of b] by auto
  then show ?case by (simp add: base64Char_mem)
next
  case (4 a b c rest)
  have "unat a div 4 < 64" "(unat a mod 4) * 16 + unat b div 16 < 64"
    "(unat b mod 16) * 4 + unat c div 64 < 64" "unat c mod 64 < 64"
    using unat_byte[of a] unat_byte[of b] unat_byte[of c] by auto
  with 4 show ?case by (auto simp add: base64Char_mem)
qed

lemma replaceAll_map: "replaceAll c [r] s = map (\<lambda>x. if x = c then r else x) s"
  unfolding replaceAll_def by (induction s) auto

lemma replaceAll_filter: "replaceAll c [] s = filter (\<lambda>x. x \<noteq> c) s"
  unfolding replaceAll_def by (induction s) auto

lemma encodeBase64Url_eq_spec: "encodeBase64Url text = encodeBase64Url_spec text"
  by (simp add: encodeBase64Url_def encodeBase64Url_spec_def replaceAll_map replaceAll_filter)

lemma alphabet_safe: "c \<in> set base64Alphabet \<Longrightarrow> c \<noteq> CHR ''+'' \<Longrightarrow> c \<noteq> CHR ''/'' \<Longrightarrow> c \<in> urlSafeChars"
  unfolding base64Alphabet_def urlSafeChars_def by auto

lemma url_char: "y = CHR ''='' \<or> y \<in> set base64Alphabet \<Longrightarrow>
   x = (if (if y = CHR ''+'' then CHR ''-'' else y) = CHR ''/'' then CHR ''_'' else (if y = CHR ''+'' then CHR ''-'' else y))
   \<Longrightarrow> x \<noteq> CHR ''='' \<Longrightarrow> x \<in> urlSafeChars"
  by (cases "y = CHR ''+''"; cases "y = CHR ''/''") (auto simp add: alphabet_safe, simp_all add: urlSafeChars_def)

text \<open>
  Claim C10. For every input string, \<open>encodeBase64Url\<close> returns the standard base64
  text of the string with every plus sign replaced by a minus sign, every slash by an
  underscore and every equals sign removed; the result, and so the urn derived from an
  object id, holds only letters, digits, minus signs and underscores.
\<close>

theorem encodeBase64Url_url_safe:
  "encodeBase64Url text = encodeBase64Url_spec text
   \<and> set (encodeBase64Url text) \<subseteq> urlSafeChars
   \<and> CHR ''+'' \<notin> set (encodeBase64Url text)
   \<and> CHR ''/'' \<notin> set (encodeBase64Url text)
   \<and> CHR ''='' \<notin> set (encodeBase64Url text)"
proof -
  define f where "f = (\<lambda>c. if c = CHR ''+'' then CHR ''-'' else c)"
  define g where "g = (\<lambda>c. if c = CHR ''/'' then CHR ''_'' else c)"
  have e: "encodeBase64Url text =
      filter (\<lambda>c. c \<noteq> CHR ''='') (map g (map f (base64 (Buffer_from text))))"
    unfolding encodeBase64Url_eq_spec encodeBase64Url_spec_def f_def g_def by (rule refl)
  have sub: "set (encodeBase64Url text) \<subseteq> urlSafeChars"
  proof
    fix x assume "x \<in> set (encodeBase64Url text)"
    then obtain y where y: "y \<in> set (base64 (Buffer_from text))"
      and x: "x = g (f y)" and ne: "x \<noteq> CHR ''=''"
      unfolding e by auto
    from y base64_chars have "y = CHR ''='' \<or> y \<in> set base64Alphabet" by blast
    moreover have "x = (if (if y = CHR ''+'' then CHR ''-'' else y) = CHR ''/'' then CHR ''_''
                        else (if y = CHR ''+'' then CHR ''-'' else y))"
      unfolding x f_def g_def by (rule refl)
    ultimately show "x \<in> urlSafeChars" using ne by (rule url_char)
  qed
  have no: "CHR ''+'' \<notin> urlSafeChars" "CHR ''/'' \<notin> urlSafeChars" "CHR ''='' \<notin> urlSafeChars"
    by (simp_all add: urlSafeChars_def)
  show ?thesis using sub no encodeBase64Url_eq_spec by blast
qed

section \<open>Writes to a deleted record\<close>

text \<open>
  Claim C8. Once a record is deleted, every later write the pipeline addresses to its
  id, a status update or a metadata update, returns no record and leaves the store as
  it is; no record with that id comes back. The same holds for whole pipeline steps:
  the callback of the standard path, one poll of \<open>checkStatus\<close> whatever the manifest,
  and the handler of a failed remote call.
\<close>

theorem writes_after_delete_are_noops:
  "files (snd (deleteFile i s)) i = None
   \<and> updateFileStatus now i newStatus msg (snd (deleteFile i s)) = (None, snd (deleteFile i s))
   \<and> updateFileMetadata i md (snd (deleteFile i s)) = (None, snd (deleteFile i s))
   \<and> storage (runTask ax (StandardReady i) (st\<lparr>storage := snd (deleteFile i (storage st))\<rparr>))
       = snd (deleteFile i (storage st))
   \<and> storage (runTask ax (CheckStatus i urn bKey oKey n)
                 (st\<lparr>storage := snd (deleteFile i (storage st))\<rparr>))
       = snd (deleteFile i (storage st))
   \<and> storage (catch_apsError i e (st\<lparr>storage := snd (deleteFile i (storage st))\<rparr>))
       = snd (deleteFile i (storage st))"
proof -
  define s' where "s' = snd (deleteFile i (storage st))"
  have gone: "files s' i = None"
    by (simp add: s'_def deleteFile_def)
  have w1: "snd (updateFileStatus t i x y s') = s'" for t x y
    using gone by (simp add: updateFileStatus_def)
  have w2: "snd (updateFileMetadata i x s') = s'" for x
    using gone by (simp add: updateFileMetadata_def)
  have std: "storage (runTask ax (StandardReady i) (st\<lparr>storage := s'\<rparr>)) = s'"
    by (simp add: standardReady_def standardReady_await1_def storage_updateFileStatus_def
        storage_updateFileMetadata_def w1 w2)
  have poll: "storage (runTask ax (CheckStatus i urn bKey oKey n) (st\<lparr>storage := s'\<rparr>)) = s'"
  proof -
    obtain r st1 where c:
      "apsCalled i (GetTranslationStatusCall urn) (\<lambda>now. getTranslationStatus ax now urn)
         (st\<lparr>storage := s'\<rparr>) = (r, st1)"
      by (cases "apsCalled i (GetTranslationStatusCall urn)
                   (\<lambda>now. getTranslationStatus ax now urn) (st\<lparr>storage := s'\<rparr>)")
    have s1: "storage st1 = s'"
      using c by (auto simp add: apsCalled_def split: prod.splits)
    show ?thesis
      using c s1
      by (cases r)
        (simp_all add: checkStatus_def checkStatus_success_await1_def setTimeout_def
          storage_updateFileStatus_def storage_updateFileMetadata_def w1 w2)
  qed
  have err: "storage (catch_apsError i e (st\<lparr>storage := s'\<rparr>)) = s'"
    by (simp add: catch_apsError_def storage_updateFileStatus_def w1)
  have store: "files (snd (deleteFile i s)) i = None
     \<and> updateFileStatus now i newStatus msg (snd (deleteFile i s)) = (None, snd (deleteFile i s))
     \<and> updateFileMetadata i md (snd (deleteFile i s)) = (None, snd (deleteFile i s))"
    by (simp add: deleteFile_def updateFileStatus_def updateFileMetadata_def)
  show ?thesis
    using store std poll err unfolding s'_def by blast
qed

section \<open>Store updates\<close>

lemma updateFileStatus_present:
  "files s i = Some f \<Longrightarrow>
   updateFileStatus now i ns msg s =
     (Some (f\<lparr>status := ns, errorMessage := orNull msg,
              processedAt := (if ns = ''ready'' \<or> ns = ''error'' then Some now
                              else processedAt f)\<rparr>),
      s\<lparr>files := (files s)(i \<mapsto> f\<lparr>status := ns, errorMessage := orNull msg,
              processedAt := (if ns = ''ready'' \<or> ns = ''error'' then Some now
                              else processedAt f)\<rparr>)\<rparr>)"
  by (simp add: updateFileStatus_def Let_def)

lemma updateFileMetadata_present:
  "files s i = Some f \<Longrightarrow>
   updateFileMetadata i md s =
     (Some (f\<lparr>metadata := Some md\<rparr>),
      s\<lparr>files := (files s)(i \<mapsto> f\<lparr>metadata := Some md\<rparr>)\<rparr>)"
  by (simp add: updateFileMetadata_def Let_def)

lemma updateFileStatus_absent:
  "files s i = None \<Longrightarrow> updateFileStatus now i ns msg s = (None, s)"
  by (simp add: updateFileStatus_def)

lemma updateFileMetadata_absent:
  "files s i = None \<Longrightarrow> updateFileMetadata i md s = (None, s)"
  by (simp add: updateFileMetadata_def)

section \<open>The processing time\<close>

lemma processedInv_applyOp: "processedInv s \<Longrightarrow> processedInv (applyOp op s)"
proof (cases op)
  case (Upload now row)
  assume "processedInv s"
  then show ?thesis using Upload
    by (auto simp add: processedInv_def createFile_def Let_def InsertFile.extend_def
        File.fields_def FILE_STATUS_UPLOADING_def split: if_splits)
next
  case (SetStatus now i ns msg)
  assume inv: "processedInv s"
  show ?thesis
  proof (cases "files s i")
    case None
    then show ?thesis using inv SetStatus by (simp add: updateFileStatus_absent)
  next
    case (Some f)
    then show ?thesis using inv SetStatus
      by (auto simp add: updateFileStatus_present processedInv_def split: if_splits)
  qed
next
  case (SetMetadata i md)
  assume inv: "processedInv s"
  show ?thesis
  proof (cases "files s i")
    case None
    then show ?thesis using inv SetMetadata by (simp add: updateFileMetadata_absent)
  next
    case (Some f)
    then show ?thesis using inv SetMetadata
      by (auto simp add: updateFileMetadata_present processedInv_def split: if_splits)
  qed
next
  case (Delete i)
  assume "processedInv s"
  then show ?thesis using Delete
    by (auto simp add: processedInv_def deleteFile_def split: if_splits)
qed

lemma processedInv_applyOps: "processedInv s \<Longrightarrow> processedInv (applyOps ops s)"
  unfolding applyOps_def
  by (induction ops arbitrary: s) (simp_all add: processedInv_applyOp)

lemma processedInv_new: "processedInv newMemStorage"
  by (simp add: processedInv_def newMemStorage_def)

text \<open>
  Claim C7, as the code has it. A status update stamps \<open>processedAt\<close> with the current
  time whenever the new status is \<open>ready\<close> or \<open>error\<close>, every time, and keeps the old
  value otherwise; a metadata update keeps it. This holds of the record the update
  returns and of the record it leaves in the store, and no other record is touched. So
  after any sequence of uploads, status updates, metadata updates and deletions on a
  fresh store, every record whose status is \<open>ready\<close> or \<open>error\<close> has a processing
  time.
\<close>

theorem processedAt_stamped_on_terminal_status:
  "processedInv (applyOps ops newMemStorage)
   \<and> (files s i = Some f \<longrightarrow>
        map_option processedAt (fst (updateFileStatus now i ns msg s))
          = Some (if ns = ''ready'' \<or> ns = ''error'' then Some now else processedAt f))
   \<and> (files s i = Some f \<longrightarrow>
        map_option processedAt (fst (updateFileMetadata i md s)) = Some (processedAt f))
   \<and> (files s i = Some f \<longrightarrow>
        map_option processedAt (files (snd (updateFileStatus now i ns msg s)) i)
          = Some (if ns = ''ready'' \<or> ns = ''error'' then Some now else processedAt f)
        \<and> map_option status (files (snd (updateFileStatus now i ns msg s)) i) = Some ns
        \<and> files (snd (updateFileStatus now i ns msg s)) i
            = fst (updateFileStatus now i ns msg s))
   \<and> (files s i = Some f \<longrightarrow>
        map_option processedAt (files (snd (updateFileMetadata i md s)) i)
          = Some (processedAt f)
        \<and> map_option status (files (snd (updateFileMetadata i md s)) i) = Some (status f)
        \<and> files (snd (updateFileMetadata i md s)) i = fst (updateFileMetadata i md s))
   \<and> (j \<noteq> i \<longrightarrow>
        files (snd (updateFileStatus now i ns msg s)) j = files s j
        \<and> files (snd (updateFileMetadata i md s)) j = files s j)"
proof -
  have other: "j \<noteq> i \<longrightarrow>
        files (snd (updateFileStatus now i ns msg s)) j = files s j
        \<and> files (snd (updateFileMetadata i md s)) j = files s j"
    by (cases "files s i")
      (simp_all add: updateFileStatus_absent updateFileStatus_present
        updateFileMetadata_absent updateFileMetadata_present)
  show ?thesis
    using processedInv_applyOps[OF processedInv_new, of ops] other
    by (simp add: updateFileStatus_present updateFileMetadata_present)
qed

text \<open>
  A record that timed out at time 5 and was retried at time 9: the invariant holds, the
  record is there, and a status update to \<open>ready\<close> at time 12 stamps time 12 on the
  record in the store, which is \<open>ready\<close> then; a metadata update keeps the time 5.
\<close>

theorem processedAt_stamped_witness:
  "processedInv (applyOps sampleOps newMemStorage)
   \<and> files (applyOps sampleOps newMemStorage) 1 \<noteq> None
   \<and> (2::nat) \<noteq> 1
   \<and> map_option processedAt
        (fst (updateFileStatus 12 1 ''ready'' None (applyOps sampleOps newMemStorage)))
      = Some (Some 12)
   \<and> statusAndTime 1
        (snd (updateFileStatus 12 1 ''ready'' None (applyOps sampleOps newMemStorage)))
      = Some (''ready'', Some 12)
   \<and> statusAndTime 1 (snd (updateFileMetadata 1 ''{}'' (applyOps sampleOps newMemStorage)))
      = Some (''processing'', Some 5)
   \<and> files (snd (updateFileStatus 12 1 ''ready'' None (applyOps sampleOps newMemStorage))) 2
      = files (applyOps sampleOps newMemStorage) 2"
proof -
  obtain f where f: "files (applyOps sampleOps newMemStorage) 1 = Some f"
    "status f = ''processing''" "processedAt f = Some 5"
    by (simp add: sampleOps_def applyOps_def createFile_def newMemStorage_def
        updateFileStatus_def Let_def)
  show ?thesis
    using processedAt_stamped_on_terminal_status
      [of sampleOps "applyOps sampleOps newMemStorage" 1 f 12 "''ready''" None "''{}''" 2] f
    by (auto simp add: statusAndTime_def)
qed

text \<open>
  Claim C7 as stated fails. After the retry at time 9 the record is \<open>processing\<close> and
  still carries the processing time 5; a second terminal transition at time 12 replaces
  5 by 12, so the time is set more than once.
\<close>

theorem processedAt_counterexample:
  "statusAndTime 1 (applyOps sampleOps newMemStorage) = Some (''processing'', Some 5)
   \<and> statusAndTime 1
        (applyOps (sampleOps @ [SetStatus 12 1 ''error'' (Some ''Translation timeout'')])
           newMemStorage)
      = Some (''error'', Some 12)"
  by code_simp

section \<open>Bucket creation\<close>

lemma createBucket_conflict:
  "authenticate ax now sw = (Inr auth, (this, w1)) \<Longrightarrow>
   post_buckets ax (''Bearer '' @ access_token auth) key ''temporary'' w1 = (Inl err, w2) \<Longrightarrow>
   response_status err = Some 409 \<Longrightarrow>
   get_bucket_details ax (''Bearer '' @ access_token auth) key w2 = (Inr existing, w3) \<Longrightarrow>
   createBucket ax now key sw = (Inr existing, (this, w3))"
  by (simp add: createBucket_def)

lemma fake_auth: "\<exists>auth this. authenticate fakeAxios now (svc, w) = (Inr auth, (this, w))"
  by (auto simp add: authenticate_def requestToken_def fakeAxios_def split: option.splits)

lemma find_append_new: "find P xs = None \<Longrightarrow> P b \<Longrightarrow> find P (xs @ [b]) = Some b"
  by (induction xs) (auto split: if_splits)

lemma fake_createBucket_present:
  "find (\<lambda>b. bucketKey b = key) (fr_buckets w) = Some b \<Longrightarrow>
   \<exists>this. createBucket fakeAxios now key (svc, w) = (Inr b, (this, w))"
proof -
  assume f: "find (\<lambda>b. bucketKey b = key) (fr_buckets w) = Some b"
  obtain auth this where a: "authenticate fakeAxios now (svc, w) = (Inr auth, (this, w))"
    using fake_auth by blast
  show ?thesis using a f
    by (simp add: createBucket_def fakeAxios_def httpError_def)
qed

lemma fake_createBucket_absent:
  "find (\<lambda>b. bucketKey b = key) (fr_buckets w) = None \<Longrightarrow>
   \<exists>this b. bucketKey b = key \<and> createBucket fakeAxios now key (svc, w) = (Inr b, (this, w\<lparr>fr_buckets := fr_buckets w @ [b]\<rparr>))"
proof -
  assume f: "find (\<lambda>b. bucketKey b = key) (fr_buckets w) = None"
  obtain auth this where a: "authenticate fakeAxios now (svc, w) = (Inr auth, (this, w))"
    using fake_auth by blast
  show ?thesis using a f
    by (simp add: createBucket_def fakeAxios_def Let_def)
qed

lemma fake_createBucket_twice:
  "fst (createBucket fakeAxios t2 key (snd (createBucket fakeAxios t1 key (svc, w))))
     = fst (createBucket fakeAxios t1 key (svc, w))
   \<and> (case fst (createBucket fakeAxios t1 key (svc, w)) of Inr b \<Rightarrow> bucketKey b = key | Inl e \<Rightarrow> False)"
proof (cases "find (\<lambda>b. bucketKey b = key) (fr_buckets w)")
  case None
  then obtain this b where b: "bucketKey b = key"
    and c1: "createBucket fakeAxios t1 key (svc, w) = (Inr b, (this, w\<lparr>fr_buckets := fr_buckets w @ [b]\<rparr>))"
    using fake_createBucket_absent by blast
  have "find (\<lambda>b. bucketKey b = key) (fr_buckets (w\<lparr>fr_buckets := fr_buckets w @ [b]\<rparr>)) = Some b"
    using None b by (simp add: find_append_new)
  then obtain this2 where "createBucket fakeAxios t2 key (this, w\<lparr>fr_buckets := fr_buckets w @ [b]\<rparr>) = (Inr b, (this2, w\<lparr>fr_buckets := fr_buckets w @ [b]\<rparr>))"
    using fake_createBucket_present by blast
  then show ?thesis using c1 b by simp
next
  case (Some b)
  then obtain this where c1: "createBucket fakeAxios t1 key (svc, w) = (Inr b, (this, w))"
    using fake_createBucket_present by blast
  obtain this2 where c2: "createBucket fakeAxios t2 key (this, w) = (Inr b, (this2, w))"
    using Some fake_createBucket_present by blast
  have "bucketKey b = key" using Some by (auto simp add: find_Some_iff)
  then show ?thesis using c1 c2 by simp
qed

text \<open>
  Claim C9. When the creation request is answered with status 409, \<open>createBucket\<close>
  fetches the details of the existing bucket and returns them instead of failing.
  Against a remote service that keeps its buckets and answers a repeated creation with
  409 (the scripted service), two calls with one key return the same bucket, whose key
  is the one asked for, whatever buckets exist before and whenever the calls are made.
\<close>

theorem createBucket_idempotent:
  "(authenticate ax now sw = (Inr auth, (this, w1))
     \<and> post_buckets ax (''Bearer '' @ access_token auth) key ''temporary'' w1 = (Inl err, w2)
     \<and> response_status err = Some 409
     \<and> get_bucket_details ax (''Bearer '' @ access_token auth) key w2 = (Inr existing, w3)
     \<longrightarrow> createBucket ax now key sw = (Inr existing, (this, w3)))
   \<and> fst (createBucket fakeAxios t2 key (snd (createBucket fakeAxios t1 key (svc, w))))
        = fst (createBucket fakeAxios t1 key (svc, w))
   \<and> (case fst (createBucket fakeAxios t1 key (svc, w)) of
         Inr b \<Rightarrow> bucketKey b = key | Inl e \<Rightarrow> False)"
  using createBucket_conflict[of ax now sw auth this w1 key err w2 existing w3]
    fake_createBucket_twice[of t2 key t1 svc w]
  by blast

text \<open>
  The bucket \<open>autocad-viewer-0\<close> exists: the creation is answered with 409 and
  \<open>createBucket\<close> returns the existing bucket.
\<close>

theorem createBucket_idempotent_witness:
  "authenticate fakeAxios 7 (sampleService, \<lparr>fr_buckets = [existingBucket], fr_manifests = []\<rparr>)
     = (Inr \<lparr>access_token = ''tok'', expires_in = 3600, token_type = ''Bearer''\<rparr>,
        (sampleService\<lparr>accessToken := Some ''tok'', tokenExpiry := Some 3600007\<rparr>,
         \<lparr>fr_buckets = [existingBucket], fr_manifests = []\<rparr>))
   \<and> post_buckets fakeAxios ''Bearer tok'' ''autocad-viewer-0'' ''temporary''
        \<lparr>fr_buckets = [existingBucket], fr_manifests = []\<rparr>
     = (Inl (httpError 409), \<lparr>fr_buckets = [existingBucket], fr_manifests = []\<rparr>)
   \<and> response_status (httpError 409) = Some 409
   \<and> get_bucket_details fakeAxios ''Bearer tok'' ''autocad-viewer-0''
        \<lparr>fr_buckets = [existingBucket], fr_manifests = []\<rparr>
     = (Inr existingBucket, \<lparr>fr_buckets = [existingBucket], fr_manifests = []\<rparr>)
   \<and> createBucket fakeAxios 7 ''autocad-viewer-0''
        (sampleService, \<lparr>fr_buckets = [existingBucket], fr_manifests = []\<rparr>)
     = (Inr existingBucket, (sampleService\<lparr>accessToken := Some ''tok'', tokenExpiry := Some 3600007\<rparr>,
         \<lparr>fr_buckets = [existingBucket], fr_manifests = []\<rparr>))"
proof -
  let ?w = "\<lparr>fr_buckets = [existingBucket], fr_manifests = []\<rparr>"
  let ?svc = "sampleService\<lparr>accessToken := Some ''tok'', tokenExpiry := Some 3600007\<rparr>"
  let ?auth = "\<lparr>access_token = ''tok'', expires_in = 3600, token_type = ''Bearer''\<rparr>"
  have h1: "authenticate fakeAxios 7 (sampleService, ?w) = (Inr ?auth, (?svc, ?w))"
    by (simp add: authenticate_def requestToken_def fakeAxios_def sampleService_def)
  have h2: "post_buckets fakeAxios (''Bearer '' @ access_token ?auth) ''autocad-viewer-0'' ''temporary'' ?w
     = (Inl (httpError 409), ?w)"
    by (simp add: fakeAxios_def existingBucket_def)
  have h3: "response_status (httpError 409) = Some 409"
    by (simp add: httpError_def)
  have h4: "get_bucket_details fakeAxios (''Bearer '' @ access_token ?auth) ''autocad-viewer-0'' ?w
     = (Inr existingBucket, ?w)"
    by (simp add: fakeAxios_def existingBucket_def)
  show ?thesis
    using createBucket_idempotent[of fakeAxios 7 "(sampleService, ?w)" ?auth ?svc ?w "''autocad-viewer-0''" "httpError 409" ?w existingBucket ?w]
      h1 h2 h3 h4 by simp
qed

section \<open>Steps of the pipeline\<close>

lemma apsCalled_frame:
  "apsCalled i c m st = (r, st1) \<Longrightarrow>
   storage st1 = storage st \<and> timers st1 = timers st \<and> clock st1 = clock st
   \<and> remoteCalls st1 = remoteCalls st @ [(clock st, i, c)]
   \<and> unhandledRejections st1 = unhandledRejections st"
  by (auto simp add: apsCalled_def split: prod.splits)

lemma apsCalled_result:
  "fst (apsCalled i c m st) = fst (m (clock st) (apsService st, remote st))"
  by (simp add: apsCalled_def split: prod.splits)

lemma observe_updateFileStatus:
  "observe i st = Some (s0, e0, m0, p0) \<Longrightarrow>
   observe i (storage_updateFileStatus i ns msg st)
     = Some (ns, orNull msg, m0, if ns = ''ready'' \<or> ns = ''error'' then Some (clock st) else p0)"
  by (auto simp add: observe_def storage_updateFileStatus_def updateFileStatus_present)

lemma observe_updateFileMetadata:
  "observe i st = Some (s0, e0, m0, p0) \<Longrightarrow>
   observe i (storage_updateFileMetadata i md st) = Some (s0, e0, Some md, p0)"
  by (auto simp add: observe_def storage_updateFileMetadata_def updateFileMetadata_present)

lemma status_frame:
  "timers (storage_updateFileStatus i ns msg st) = timers st
   \<and> clock (storage_updateFileStatus i ns msg st) = clock st
   \<and> remoteCalls (storage_updateFileStatus i ns msg st) = remoteCalls st
   \<and> unhandledRejections (storage_updateFileStatus i ns msg st) = unhandledRejections st
   \<and> apsService (storage_updateFileStatus i ns msg st) = apsService st
   \<and> remote (storage_updateFileStatus i ns msg st) = remote st"
  by (simp add: storage_updateFileStatus_def)

lemma metadata_frame:
  "timers (storage_updateFileMetadata i md st) = timers st
   \<and> clock (storage_updateFileMetadata i md st) = clock st
   \<and> remoteCalls (storage_updateFileMetadata i md st) = remoteCalls st
   \<and> unhandledRejections (storage_updateFileMetadata i md st) = unhandledRejections st
   \<and> apsService (storage_updateFileMetadata i md st) = apsService st
   \<and> remote (storage_updateFileMetadata i md st) = remote st"
  by (simp add: storage_updateFileMetadata_def)

lemma run_idle: "timers st = [] \<Longrightarrow> run ax st = st"
  by (simp add: run.simps)

lemma run_step:
  "timers st = (due, t) # rest \<Longrightarrow>
   run ax st = run ax (runTask ax t (st\<lparr>timers := rest, clock := max (clock st) due\<rparr>))"
  by (simp add: run.simps)

section \<open>One poll of the manifest\<close>

lemma checkStatus_returned:
  "observe fileId st = Some (s0, e0, m0, p0)
   \<and> fst (getTranslationStatus ax (clock st) urn (apsService st, remote st)) = Inr manifest
   \<longrightarrow>
     (job_status manifest = ''success'' \<longrightarrow>
        observe fileId (checkStatus ax fileId urn bKey oKey n st)
          = Some (FILE_STATUS_READY, None,
                  Some (JSON_stringify (apsMetadata urn bKey oKey manifest)), Some (clock st))
        \<and> timers (checkStatus ax fileId urn bKey oKey n st) = timers st)
   \<and> (job_status manifest = ''failed'' \<longrightarrow>
        observe fileId (checkStatus ax fileId urn bKey oKey n st)
          = Some (FILE_STATUS_ERROR, Some ''APS translation failed'', m0, Some (clock st))
        \<and> timers (checkStatus ax fileId urn bKey oKey n st) = timers st)
   \<and> (job_status manifest \<noteq> ''success'' \<and> job_status manifest \<noteq> ''failed''
        \<and> maxAttempts \<le> n + 1 \<longrightarrow>
        observe fileId (checkStatus ax fileId urn bKey oKey n st)
          = Some (FILE_STATUS_ERROR, Some ''Translation timeout'', m0, Some (clock st))
        \<and> timers (checkStatus ax fileId urn bKey oKey n st) = timers st)
   \<and> (job_status manifest \<noteq> ''success'' \<and> job_status manifest \<noteq> ''failed''
        \<and> n + 1 < maxAttempts \<longrightarrow>
        observe fileId (checkStatus ax fileId urn bKey oKey n st) = Some (s0, e0, m0, p0)
        \<and> timers (checkStatus ax fileId urn bKey oKey n st)
            = enqueue (clock st + 10000, CheckStatus fileId urn bKey oKey (n + 1)) (timers st))"
proof (intro impI, elim conjE)
  assume ob: "observe fileId st = Some (s0, e0, m0, p0)"
    and poll: "fst (getTranslationStatus ax (clock st) urn (apsService st, remote st)) = Inr manifest"
  obtain r st1 where c:
    "apsCalled fileId (GetTranslationStatusCall urn) (\<lambda>now. getTranslationStatus ax now urn) st
       = (r, st1)"
    by (cases "apsCalled fileId (GetTranslationStatusCall urn)
                 (\<lambda>now. getTranslationStatus ax now urn) st")
  have fr: "storage st1 = storage st" "timers st1 = timers st" "clock st1 = clock st"
    using apsCalled_frame[OF c] by simp_all
  have "r = Inr manifest"
    using apsCalled_result[of fileId "GetTranslationStatusCall urn"
        "\<lambda>now. getTranslationStatus ax now urn" st] c poll
    by simp
  then have c': "apsCalled fileId (GetTranslationStatusCall urn)
      (\<lambda>now. getTranslationStatus ax now urn) st = (Inr manifest, st1)"
    using c by simp
  have ob1: "observe fileId st1 = Some (s0, e0, m0, p0)"
    using ob fr by (simp add: observe_def)
  have succ: "observe fileId (checkStatus ax fileId urn bKey oKey n st)
          = Some (FILE_STATUS_READY, None,
                  Some (JSON_stringify (apsMetadata urn bKey oKey manifest)), Some (clock st))
        \<and> timers (checkStatus ax fileId urn bKey oKey n st) = timers st"
    if s: "job_status manifest = ''success''"
  proof -
    have a1: "observe fileId (checkStatus_success_await1 fileId st1) = Some (''ready'', None, m0, Some (clock st))"
      using observe_updateFileStatus[OF ob1, of "''ready''" None] fr
      by (simp add: checkStatus_success_await1_def FILE_STATUS_READY_def orNull_def)
    show ?thesis
      using c' s observe_updateFileMetadata[OF a1] fr
      by (simp add: checkStatus_def metadata_frame checkStatus_success_await1_def status_frame
          FILE_STATUS_READY_def)
  qed
  have err: "observe fileId (storage_updateFileStatus fileId FILE_STATUS_ERROR (Some msg) st1)
      = Some (FILE_STATUS_ERROR, orNull (Some msg), m0, Some (clock st))" for msg
    using observe_updateFileStatus[OF ob1, of "''error''" "Some msg"] fr
    by (simp add: FILE_STATUS_ERROR_def)
  have failed: "observe fileId (checkStatus ax fileId urn bKey oKey n st)
          = Some (FILE_STATUS_ERROR, Some ''APS translation failed'', m0, Some (clock st))
        \<and> timers (checkStatus ax fileId urn bKey oKey n st) = timers st"
    if s: "job_status manifest = ''failed''"
    using c' s err[of "''APS translation failed''"] fr
    by (simp add: checkStatus_def status_frame orNull_def)
  have timeout: "observe fileId (checkStatus ax fileId urn bKey oKey n st)
          = Some (FILE_STATUS_ERROR, Some ''Translation timeout'', m0, Some (clock st))
        \<and> timers (checkStatus ax fileId urn bKey oKey n st) = timers st"
    if s: "job_status manifest \<noteq> ''success''" "job_status manifest \<noteq> ''failed''" "maxAttempts \<le> n + 1"
    using c' s err[of "''Translation timeout''"] fr
    by (simp add: checkStatus_def status_frame orNull_def)
  have again: "observe fileId (checkStatus ax fileId urn bKey oKey n st) = Some (s0, e0, m0, p0)
        \<and> timers (checkStatus ax fileId urn bKey oKey n st)
            = enqueue (clock st + 10000, CheckStatus fileId urn bKey oKey (n + 1)) (timers st)"
    if s: "job_status manifest \<noteq> ''success''" "job_status manifest \<noteq> ''failed''" "n + 1 < maxAttempts"
    using c' s ob1 fr
    by (simp add: checkStatus_def setTimeout_def observe_def)
  show "(job_status manifest = ''success'' \<longrightarrow>
        observe fileId (checkStatus ax fileId urn bKey oKey n st)
          = Some (FILE_STATUS_READY, None,
                  Some (JSON_stringify (apsMetadata urn bKey oKey manifest)), Some (clock st))
        \<and> timers (checkStatus ax fileId urn bKey oKey n st) = timers st)
   \<and> (job_status manifest = ''failed'' \<longrightarrow>
        observe fileId (checkStatus ax fileId urn bKey oKey n st)
          = Some (FILE_STATUS_ERROR, Some ''APS translation failed'', m0, Some (clock st))
        \<and> timers (checkStatus ax fileId urn bKey oKey n st) = timers st)
   \<and> (job_status manifest \<noteq> ''success'' \<and> job_status manifest \<noteq> ''failed''
        \<and> maxAttempts \<le> n + 1 \<longrightarrow>
        observe fileId (checkStatus ax fileId urn bKey oKey n st)
          = Some (FILE_STATUS_ERROR, Some ''Translation timeout'', m0, Some (clock st))
        \<and> timers (checkStatus ax fileId urn bKey oKey n st) = timers st)
   \<and> (job_status manifest \<noteq> ''success'' \<and> job_status manifest \<noteq> ''failed''
        \<and> n + 1 < maxAttempts \<longrightarrow>
        observe fileId (checkStatus ax fileId urn bKey oKey n st) = Some (s0, e0, m0, p0)
        \<and> timers (checkStatus ax fileId urn bKey oKey n st)
            = enqueue (clock st + 10000, CheckStatus fileId urn bKey oKey (n + 1)) (timers st))"
  proof (intro conjI impI)
    assume "job_status manifest = ''success''"
    then show "observe fileId (checkStatus ax fileId urn bKey oKey n st)
          = Some (FILE_STATUS_READY, None,
                  Some (JSON_stringify (apsMetadata urn bKey oKey manifest)), Some (clock st))"
      and "timers (checkStatus ax fileId urn bKey oKey n st) = timers st"
      using succ by simp_all
  next
    assume "job_status manifest = ''failed''"
    then show "observe fileId (checkStatus ax fileId urn bKey oKey n st)
          = Some (FILE_STATUS_ERROR, Some ''APS translation failed'', m0, Some (clock st))"
      and "timers (checkStatus ax fileId urn bKey oKey n st) = timers st"
      using failed by simp_all
  next
    assume "job_status manifest \<noteq> ''success'' \<and> job_status manifest \<noteq> ''failed''
        \<and> maxAttempts \<le> n + 1"
    then show "observe fileId (checkStatus ax fileId urn bKey oKey n st)
          = Some (FILE_STATUS_ERROR, Some ''Translation timeout'', m0, Some (clock st))"
      and "timers (checkStatus ax fileId urn bKey oKey n st) = timers st"
      using timeout by simp_all
  next
    assume "job_status manifest \<noteq> ''success'' \<and> job_status manifest \<noteq> ''failed''
        \<and> n + 1 < maxAttempts"
    then show "observe fileId (checkStatus ax fileId urn bKey oKey n st) = Some (s0, e0, m0, p0)"
      and "timers (checkStatus ax fileId urn bKey oKey n st)
            = enqueue (clock st + 10000, CheckStatus fileId urn bKey oKey (n + 1)) (timers st)"
      using again by simp_all
  qed
qed

text \<open>
  Claim C3, as the code has it. When the record is in the store and the poll returns a
  manifest, \<open>checkStatus\<close> does exactly one of four things, decided by the manifest's
  status and the attempt count. On \<open>success\<close> the record becomes \<open>ready\<close> with
  metadata \<open>{viewerType:"aps", urn, bucketKey, objectKey, status:"translated",
  derivatives: manifest}\<close>. On \<open>failed\<close> it becomes \<open>error\<close> with the message
  \<open>APS translation failed\<close>. On any other status, when this was the last attempt it
  becomes \<open>error\<close> with the message \<open>Translation timeout\<close>, otherwise the record is
  untouched and the next poll is set 10000 ms ahead. No timer is set in the first three
  cases.
\<close>

theorem checkStatus_outcomes:
  "observe fileId st = Some (s0, e0, m0, p0)
   \<and> fst (getTranslationStatus ax (clock st) urn (apsService st, remote st)) = Inr manifest
   \<longrightarrow>
     (job_status manifest = ''success'' \<longrightarrow>
        observe fileId (checkStatus ax fileId urn bKey oKey n st)
          = Some (FILE_STATUS_READY, None,
                  Some (JSON_stringify (apsMetadata urn bKey oKey manifest)), Some (clock st))
        \<and> timers (checkStatus ax fileId urn bKey oKey n st) = timers st)
   \<and> (job_status manifest = ''failed'' \<longrightarrow>
        observe fileId (checkStatus ax fileId urn bKey oKey n st)
          = Some (FILE_STATUS_ERROR, Some ''APS translation failed'', m0, Some (clock st))
        \<and> timers (checkStatus ax fileId urn bKey oKey n st) = timers st)
   \<and> (job_status manifest \<noteq> ''success'' \<and> job_status manifest \<noteq> ''failed''
        \<and> maxAttempts \<le> n + 1 \<longrightarrow>
        observe fileId (checkStatus ax fileId urn bKey oKey n st)
          = Some (FILE_STATUS_ERROR, Some ''Translation timeout'', m0, Some (clock st))
        \<and> timers (checkStatus ax fileId urn bKey oKey n st) = timers st)
   \<and> (job_status manifest \<noteq> ''success'' \<and> job_status manifest \<noteq> ''failed''
        \<and> n + 1 < maxAttempts \<longrightarrow>
        observe fileId (checkStatus ax fileId urn bKey oKey n st) = Some (s0, e0, m0, p0)
        \<and> timers (checkStatus ax fileId urn bKey oKey n st)
            = enqueue (clock st + 10000, CheckStatus fileId urn bKey oKey (n + 1)) (timers st))"
  by (rule checkStatus_returned)

lemmas eval_defs = processFile_def checkStatus_def checkStatus_success_await1_def
  standardReady_def standardReady_await1_def catch_apsError_def apsCalled_def setTimeout_def
  storage_updateFileStatus_def storage_updateFileMetadata_def updateFileStatus_def
  updateFileMetadata_def createFile_def newMemStorage_def orNull_def
  createBucket_def uploadFile_def translateFile_def getTranslationStatus_def authenticate_def
  requestToken_def fakeAxios_def sampleService_def uploadedRow_def afterUpload_def dwgUpload_def
  pdfUpload_def observe_def pollTimes_def patchFileStatus_def maxAttempts_def
  FILE_TYPES_AUTOCAD_def FILE_STATUS_UPLOADING_def FILE_STATUS_PROCESSING_def
  FILE_STATUS_READY_def FILE_STATUS_ERROR_def jobWithStatus_def networkError_def httpError_def
  InsertFile.extend_def File.fields_def Let_def run_step run_idle

lemma dwgUpload_observe: "observe 1 (dwgUpload script) = Some (''uploading'', None, None, None)"
  by (simp add: dwgUpload_def afterUpload_def observe_def createFile_def newMemStorage_def
      uploadedRow_def Let_def InsertFile.extend_def File.fields_def FILE_STATUS_UPLOADING_def)

lemma dwgUpload_poll:
  "fst (getTranslationStatus fakeAxios (clock (dwgUpload (r # rs))) urn
          (apsService (dwgUpload (r # rs)), remote (dwgUpload (r # rs)))) = r"
  by (simp add: dwgUpload_def afterUpload_def getTranslationStatus_def authenticate_def
      requestToken_def fakeAxios_def sampleService_def)

lemma dwgUpload_poll_empty:
  "fst (getTranslationStatus fakeAxios (clock (dwgUpload [])) urn
          (apsService (dwgUpload []), remote (dwgUpload []))) = Inr (jobWithStatus urn ''inprogress'')"
  by (simp add: dwgUpload_def afterUpload_def getTranslationStatus_def authenticate_def
      requestToken_def fakeAxios_def sampleService_def)

text \<open>
  The upload of \<open>plan.dwg\<close> polled with a \<open>success\<close> manifest, with a \<open>failed\<close>
  manifest, and with a pending manifest at the 30th and at the 29th attempt.
\<close>

theorem checkStatus_outcomes_witness:
  "observe 1 (dwgUpload [Inr (jobWithStatus ''dXJu'' ''success'')])
      = Some (''uploading'', None, None, None)
   \<and> fst (getTranslationStatus fakeAxios (clock (dwgUpload [Inr (jobWithStatus ''dXJu'' ''failed'')]))
            ''dXJu'' (apsService (dwgUpload [Inr (jobWithStatus ''dXJu'' ''failed'')]),
                      remote (dwgUpload [Inr (jobWithStatus ''dXJu'' ''failed'')])))
      = Inr (jobWithStatus ''dXJu'' ''failed'')
   \<and> observe 1 (checkStatus fakeAxios 1 ''dXJu'' ''b'' ''k'' 0
                  (dwgUpload [Inr (jobWithStatus ''dXJu'' ''success'')]))
      = Some (''ready'', None,
              Some (JSON_stringify
                (apsMetadata ''dXJu'' ''b'' ''k'' (jobWithStatus ''dXJu'' ''success''))),
              Some 0)
   \<and> observe 1 (checkStatus fakeAxios 1 ''dXJu'' ''b'' ''k'' 0
                  (dwgUpload [Inr (jobWithStatus ''dXJu'' ''failed'')]))
      = Some (''error'', Some ''APS translation failed'', None, Some 0)
   \<and> observe 1 (checkStatus fakeAxios 1 ''dXJu'' ''b'' ''k'' 29 (dwgUpload []))
      = Some (''error'', Some ''Translation timeout'', None, Some 0)
   \<and> timers (checkStatus fakeAxios 1 ''dXJu'' ''b'' ''k'' 28 (dwgUpload []))
      = [(10000, CheckStatus 1 ''dXJu'' ''b'' ''k'' 29)]"
proof -
  have c: "clock (dwgUpload script) = 0" "timers (dwgUpload script) = []" for script
    by (simp_all add: dwgUpload_def afterUpload_def)
  have js: "job_status (jobWithStatus u x) = x" for u x
    by (simp add: jobWithStatus_def)
  note ob = dwgUpload_observe
  have s: "observe 1 (checkStatus fakeAxios 1 ''dXJu'' ''b'' ''k'' 0
                  (dwgUpload [Inr (jobWithStatus ''dXJu'' ''success'')]))
      = Some (''ready'', None,
              Some (JSON_stringify
                (apsMetadata ''dXJu'' ''b'' ''k'' (jobWithStatus ''dXJu'' ''success''))),
              Some 0)"
    using checkStatus_outcomes[of 1 "dwgUpload [Inr (jobWithStatus ''dXJu'' ''success'')]"
        "''uploading''" None None None fakeAxios "''dXJu''" "jobWithStatus ''dXJu'' ''success''"
        "''b''" "''k''" 0] ob dwgUpload_poll
    by (simp add: js c FILE_STATUS_READY_def)
  have f: "observe 1 (checkStatus fakeAxios 1 ''dXJu'' ''b'' ''k'' 0
                  (dwgUpload [Inr (jobWithStatus ''dXJu'' ''failed'')]))
      = Some (''error'', Some ''APS translation failed'', None, Some 0)"
    using checkStatus_outcomes[of 1 "dwgUpload [Inr (jobWithStatus ''dXJu'' ''failed'')]"
        "''uploading''" None None None fakeAxios "''dXJu''" "jobWithStatus ''dXJu'' ''failed''"
        "''b''" "''k''" 0] ob dwgUpload_poll
    by (simp add: js c FILE_STATUS_ERROR_def)
  have t: "observe 1 (checkStatus fakeAxios 1 ''dXJu'' ''b'' ''k'' 29 (dwgUpload []))
      = Some (''error'', Some ''Translation timeout'', None, Some 0)"
    using checkStatus_outcomes[of 1 "dwgUpload []"
        "''uploading''" None None None fakeAxios "''dXJu''" "jobWithStatus ''dXJu'' ''inprogress''"
        "''b''" "''k''" 29] ob dwgUpload_poll_empty
    by (simp add: js c FILE_STATUS_ERROR_def maxAttempts_def)
  have a: "timers (checkStatus fakeAxios 1 ''dXJu'' ''b'' ''k'' 28 (dwgUpload []))
      = [(10000, CheckStatus 1 ''dXJu'' ''b'' ''k'' 29)]"
    using checkStatus_outcomes[of 1 "dwgUpload []"
        "''uploading''" None None None fakeAxios "''dXJu''" "jobWithStatus ''dXJu'' ''inprogress''"
        "''b''" "''k''" 28] ob dwgUpload_poll_empty
    by (simp add: js c maxAttempts_def)
  show ?thesis using ob dwgUpload_poll s f t a by simp
qed

text \<open>
  Claim C3 as stated fails on the texts: a whole run whose first manifest is
  \<open>failed\<close> ends with the message \<open>APS translation failed\<close>, and the 30th pending
  poll writes \<open>Translation timeout\<close>.
\<close>

theorem checkStatus_counterexample:
  "observe 1 (run fakeAxios (processFile fakeAxios 1 ''autocad'' ''uploads/f1'' ''plan.dwg''
                (dwgUpload [Inr (jobWithStatus ''dXJu'' ''failed'')])))
      = Some (''error'', Some ''APS translation failed'', None, Some 10000)
   \<and> ''APS translation failed'' \<noteq> ''translation failed''
   \<and> observe 1 (checkStatus fakeAxios 1 ''dXJu'' ''b'' ''k'' 29 (dwgUpload []))
      = Some (''error'', Some ''Translation timeout'', None, Some 0)
   \<and> ''Translation timeout'' \<noteq> ''translation timeout''"
  by (simp add: eval_defs)

section \<open>The retry command\<close>

text \<open>
  Claim C1, evaluated on the code. The handler of the retry command updates the status
  and does nothing else: whatever the record and the status sent, it sets no timer and
  calls the remote client not at all. So for the record of \<open>plan.dwg\<close>, in
  \<open>error\<close> after a failed translation, the retry command sets the status to
  \<open>processing\<close> and clears the message; no timer is pending after it, the record
  stays \<open>processing\<close> when the timers are run, and the remote client has been called
  no more than the four times of the first run.
\<close>

theorem retry_does_not_restart_pipeline:
  "timers (snd (patchFileStatus i newStatus msg st)) = timers st
   \<and> remoteCalls (snd (patchFileStatus i newStatus msg st)) = remoteCalls st
   \<and> apsService (snd (patchFileStatus i newStatus msg st)) = apsService st
   \<and> remote (snd (patchFileStatus i newStatus msg st)) = remote st
   \<and> observe 1 (run fakeAxios (processFile fakeAxios 1 ''autocad'' ''uploads/f1'' ''plan.dwg''
                (dwgUpload [Inr (jobWithStatus ''dXJu'' ''failed'')])))
      = Some (''error'', Some ''APS translation failed'', None, Some 10000)
   \<and> observe 1 (run fakeAxios (snd (patchFileStatus 1 ''processing'' None
        (run fakeAxios (processFile fakeAxios 1 ''autocad'' ''uploads/f1'' ''plan.dwg''
                (dwgUpload [Inr (jobWithStatus ''dXJu'' ''failed'')]))))))
      = Some (''processing'', None, None, Some 10000)
   \<and> timers (snd (patchFileStatus 1 ''processing'' None
        (run fakeAxios (processFile fakeAxios 1 ''autocad'' ''uploads/f1'' ''plan.dwg''
                (dwgUpload [Inr (jobWithStatus ''dXJu'' ''failed'')]))))) = []
   \<and> length (remoteCalls (run fakeAxios (snd (patchFileStatus 1 ''processing'' None
        (run fakeAxios (processFile fakeAxios 1 ''autocad'' ''uploads/f1'' ''plan.dwg''
                (dwgUpload [Inr (jobWithStatus ''dXJu'' ''failed'')]))))))) = 4"
proof -
  have handler: "timers (snd (patchFileStatus i newStatus msg st)) = timers st
   \<and> remoteCalls (snd (patchFileStatus i newStatus msg st)) = remoteCalls st
   \<and> apsService (snd (patchFileStatus i newStatus msg st)) = apsService st
   \<and> remote (snd (patchFileStatus i newStatus msg st)) = remote st"
    by (simp add: patchFileStatus_def split: prod.splits option.splits)
  have sample: "observe 1 (run fakeAxios (processFile fakeAxios 1 ''autocad'' ''uploads/f1''
                ''plan.dwg'' (dwgUpload [Inr (jobWithStatus ''dXJu'' ''failed'')])))
      = Some (''error'', Some ''APS translation failed'', None, Some 10000)
   \<and> observe 1 (run fakeAxios (snd (patchFileStatus 1 ''processing'' None
        (run fakeAxios (processFile fakeAxios 1 ''autocad'' ''uploads/f1'' ''plan.dwg''
                (dwgUpload [Inr (jobWithStatus ''dXJu'' ''failed'')]))))))
      = Some (''processing'', None, None, Some 10000)
   \<and> timers (snd (patchFileStatus 1 ''processing'' None
        (run fakeAxios (processFile fakeAxios 1 ''autocad'' ''uploads/f1'' ''plan.dwg''
                (dwgUpload [Inr (jobWithStatus ''dXJu'' ''failed'')]))))) = []
   \<and> length (remoteCalls (run fakeAxios (snd (patchFileStatus 1 ''processing'' None
        (run fakeAxios (processFile fakeAxios 1 ''autocad'' ''uploads/f1'' ''plan.dwg''
                (dwgUpload [Inr (jobWithStatus ''dXJu'' ''failed'')]))))))) = 4"
    by (simp add: eval_defs)
  show ?thesis using handler sample by (intro conjI) simp_all
qed

section \<open>A rejected poll\<close>

lemma checkStatus_rejected:
  "fst (getTranslationStatus ax (clock st) urn (apsService st, remote st)) = Inl e \<Longrightarrow>
   storage (checkStatus ax i urn b k n st) = storage st
   \<and> timers (checkStatus ax i urn b k n st) = timers st
   \<and> unhandledRejections (checkStatus ax i urn b k n st) = unhandledRejections st @ [e]"
proof -
  assume rej: "fst (getTranslationStatus ax (clock st) urn (apsService st, remote st)) = Inl e"
  obtain r st1 where c:
    "apsCalled i (GetTranslationStatusCall urn) (\<lambda>now. getTranslationStatus ax now urn) st
       = (r, st1)"
    by (cases "apsCalled i (GetTranslationStatusCall urn)
                 (\<lambda>now. getTranslationStatus ax now urn) st")
  have "r = Inl e"
    using apsCalled_result[of i "GetTranslationStatusCall urn"
        "\<lambda>now. getTranslationStatus ax now urn" st] c rej
    by simp
  then show ?thesis
    using c apsCalled_frame[OF c] by (simp add: checkStatus_def)
qed

text \<open>
  Claim C4, evaluated on the code. Whenever a poll of the manifest is rejected,
  \<open>checkStatus\<close> writes nothing to the store and sets no timer: the rejection is caught
  by no handler. So when bucket, upload and job succeed for \<open>plan.dwg\<close> and the first
  poll is rejected with a network error, the record stays \<open>processing\<close> with no error
  message, and no further poll is set.
\<close>

theorem rejected_poll_leaves_processing:
  "(fst (getTranslationStatus ax (clock st) urn (apsService st, remote st)) = Inl e \<longrightarrow>
        storage (checkStatus ax i urn b k n st) = storage st
        \<and> timers (checkStatus ax i urn b k n st) = timers st
        \<and> unhandledRejections (checkStatus ax i urn b k n st) = unhandledRejections st @ [e])
   \<and> observe 1 (run fakeAxios (processFile fakeAxios 1 ''autocad'' ''uploads/f1'' ''plan.dwg''
                (dwgUpload [Inl networkError])))
      = Some (''processing'', None, None, None)
   \<and> unhandledRejections (run fakeAxios (processFile fakeAxios 1 ''autocad'' ''uploads/f1''
                ''plan.dwg'' (dwgUpload [Inl networkError]))) = [networkError]
   \<and> timers (run fakeAxios (processFile fakeAxios 1 ''autocad'' ''uploads/f1''
                ''plan.dwg'' (dwgUpload [Inl networkError]))) = []
   \<and> pollTimes (run fakeAxios (processFile fakeAxios 1 ''autocad'' ''uploads/f1''
                ''plan.dwg'' (dwgUpload [Inl networkError]))) = [10000]"
proof -
  have sample:
    "observe 1 (run fakeAxios (processFile fakeAxios 1 ''autocad'' ''uploads/f1'' ''plan.dwg''
                (dwgUpload [Inl networkError])))
      = Some (''processing'', None, None, None)
   \<and> unhandledRejections (run fakeAxios (processFile fakeAxios 1 ''autocad'' ''uploads/f1''
                ''plan.dwg'' (dwgUpload [Inl networkError]))) = [networkError]
   \<and> timers (run fakeAxios (processFile fakeAxios 1 ''autocad'' ''uploads/f1''
                ''plan.dwg'' (dwgUpload [Inl networkError]))) = []
   \<and> pollTimes (run fakeAxios (processFile fakeAxios 1 ''autocad'' ''uploads/f1''
                ''plan.dwg'' (dwgUpload [Inl networkError]))) = [10000]"
    by (simp add: eval_defs)
  show ?thesis
    using checkStatus_rejected[of ax st urn e i b k n] sample by (intro conjI impI) simp_all
qed

text \<open>
  The upload of \<open>plan.dwg\<close> polled once with a rejected request: the store and the
  timers are as before and the rejection is recorded as unhandled.
\<close>

theorem rejected_poll_witness:
  "fst (getTranslationStatus fakeAxios (clock (dwgUpload [Inl networkError])) ''dXJu''
          (apsService (dwgUpload [Inl networkError]), remote (dwgUpload [Inl networkError])))
     = Inl networkError
   \<and> observe 1 (checkStatus fakeAxios 1 ''dXJu'' ''b'' ''k'' 0 (dwgUpload [Inl networkError]))
       = Some (''uploading'', None, None, None)
   \<and> timers (checkStatus fakeAxios 1 ''dXJu'' ''b'' ''k'' 0 (dwgUpload [Inl networkError])) = []
   \<and> unhandledRejections
         (checkStatus fakeAxios 1 ''dXJu'' ''b'' ''k'' 0 (dwgUpload [Inl networkError]))
       = [networkError]"
proof -
  have h: "fst (getTranslationStatus fakeAxios (clock (dwgUpload [Inl networkError])) ''dXJu''
          (apsService (dwgUpload [Inl networkError]), remote (dwgUpload [Inl networkError])))
     = Inl networkError"
    by (rule dwgUpload_poll)
  have c: "timers (dwgUpload [Inl networkError]) = []"
    "unhandledRejections (dwgUpload [Inl networkError]) = []"
    by (simp_all add: dwgUpload_def afterUpload_def)
  have "storage (checkStatus fakeAxios 1 ''dXJu'' ''b'' ''k'' 0 (dwgUpload [Inl networkError]))
          = storage (dwgUpload [Inl networkError])
      \<and> timers (checkStatus fakeAxios 1 ''dXJu'' ''b'' ''k'' 0 (dwgUpload [Inl networkError])) = []
      \<and> unhandledRejections
            (checkStatus fakeAxios 1 ''dXJu'' ''b'' ''k'' 0 (dwgUpload [Inl networkError]))
          = [networkError]"
    using rejected_poll_leaves_processing
      [of fakeAxios "dwgUpload [Inl networkError]" "''dXJu''" networkError 1 "''b''" "''k''" 0]
      h c
    by simp
  then show ?thesis
    using h dwgUpload_observe[of "[Inl networkError]"] by (simp add: observe_def)
qed


section \<open>Every state the server reaches\<close>

lemma set_enqueue: "set (enqueue x ts) = insert x (set ts)"
  by (induction ts) auto

lemma sorted_enqueue: "sorted (map fst ts) \<Longrightarrow> sorted (map fst (enqueue x ts))"
  by (induction ts) (auto simp add: set_enqueue)

lemma ownTasks_enqueue_other:
  "taskFile (snd x) \<noteq> i \<Longrightarrow> ownTasks i (enqueue x ts) = ownTasks i ts"
  by (induction ts) (auto simp add: ownTasks_def)

lemma ownTasks_enqueue_own:
  "taskFile (snd x) = i \<Longrightarrow> ownTasks i ts = [] \<Longrightarrow> ownTasks i (enqueue x ts) = [x]"
  by (induction ts) (auto simp add: ownTasks_def split: if_splits)

lemma stepOf_status: "stepOf i s (storage_updateFileStatus i ns msg s)"
  by (cases "files (storage s) i")
    (auto simp add: stepOf_def storage_updateFileStatus_def updateFileStatus_absent
      updateFileStatus_present callsFor_def)

lemma stepOf_metadata: "stepOf i s (storage_updateFileMetadata i md s)"
  by (cases "files (storage s) i")
    (auto simp add: stepOf_def storage_updateFileMetadata_def updateFileMetadata_absent
      updateFileMetadata_present callsFor_def)

lemma stepOf_apsCalled: "stepOf i s (snd (apsCalled i c m s))"
  by (auto simp add: stepOf_def apsCalled_def callsFor_def split: prod.splits)

lemma stepOf_setTimeout: "taskFile t = i \<Longrightarrow> stepOf i s (setTimeout t d s)"
  by (auto simp add: stepOf_def setTimeout_def callsFor_def)

lemma stepOf_refl: "stepOf i s s"
  by (simp add: stepOf_def)

text \<open>Steps that set no timer compose with any step.\<close>

lemma stepOf_trans:
  "stepOf i s s1 \<Longrightarrow> timers s1 = timers s \<Longrightarrow> stepOf i s1 s2 \<Longrightarrow> stepOf i s s2"
  unfolding stepOf_def by (elim conjE, intro conjI) (simp_all, blast+)

lemma stepOf_checkStatus: "stepOf i s (checkStatus ax i urn b k a s)"
proof -
  obtain r s1 where c:
    "apsCalled i (GetTranslationStatusCall urn) (\<lambda>now. getTranslationStatus ax now urn) s
       = (r, s1)"
    by (cases "apsCalled i (GetTranslationStatusCall urn)
                 (\<lambda>now. getTranslationStatus ax now urn) s")
  have s1: "stepOf i s s1" and t1: "timers s1 = timers s"
    using stepOf_apsCalled[of i s "GetTranslationStatusCall urn"
        "\<lambda>now. getTranslationStatus ax now urn"] apsCalled_frame[OF c] c
    by simp_all
  show ?thesis
  proof (cases r)
    case (Inl e)
    have "stepOf i s1 (s1\<lparr>unhandledRejections := unhandledRejections s1 @ [e]\<rparr>)"
      by (simp add: stepOf_def callsFor_def)
    then show ?thesis using Inl c stepOf_trans[OF s1 t1] by (simp add: checkStatus_def)
  next
    case (Inr manifest)
    have ready: "stepOf i s1 (storage_updateFileMetadata i md
        (checkStatus_success_await1 i s1))" for md
      unfolding checkStatus_success_await1_def
      by (rule stepOf_trans[OF stepOf_status _ stepOf_metadata]) (simp add: status_frame)
    have again: "stepOf i s1 (setTimeout (CheckStatus i urn b k (a + 1)) 10000 s1)"
      by (rule stepOf_setTimeout) simp
    show ?thesis
      using Inr c stepOf_trans[OF s1 t1 ready] stepOf_trans[OF s1 t1 again]
        stepOf_trans[OF s1 t1 stepOf_status]
      by (simp add: checkStatus_def)
  qed
qed

lemma stepOf_runTask: "stepOf (taskFile t) s (runTask ax t s)"
proof (cases t)
  case (StandardReady i)
  have "stepOf i s (standardReady i s)"
    unfolding standardReady_def standardReady_await1_def
    by (rule stepOf_trans[OF stepOf_status _ stepOf_metadata]) (simp add: status_frame)
  then show ?thesis using StandardReady by simp
next
  case (CheckStatus i urn b k a)
  then show ?thesis using stepOf_checkStatus[of i s ax urn b k a] by simp
qed

lemma stepOf_catch: "stepOf i s (catch_apsError i e s)"
  unfolding catch_apsError_def by (rule stepOf_status)

lemma stepOf_processFile: "stepOf i s (processFile ax i fType path origName s)"
proof (cases "fType = FILE_TYPES_AUTOCAD")
  case False
  then show ?thesis by (simp add: processFile_def stepOf_setTimeout)
next
  case True
  define s1 where "s1 = storage_updateFileStatus i FILE_STATUS_PROCESSING None s"
  let ?bKey = "''autocad-viewer-'' @ showNat (clock s1)"
  let ?oKey = "showNat i @ ''-'' @ origName"
  have a1: "stepOf i s s1" "timers s1 = timers s"
    by (simp_all add: s1_def stepOf_status status_frame)
  obtain r2 s2 where c2:
    "apsCalled i (CreateBucketCall ?bKey) (\<lambda>now. createBucket ax now ?bKey) s1 = (r2, s2)"
    by (cases "apsCalled i (CreateBucketCall ?bKey) (\<lambda>now. createBucket ax now ?bKey) s1")
  have a2: "stepOf i s s2" "timers s2 = timers s"
    using stepOf_trans[OF a1 stepOf_apsCalled[of i s1 "CreateBucketCall ?bKey"
          "\<lambda>now. createBucket ax now ?bKey"]] apsCalled_frame[OF c2] c2 a1(2)
    by simp_all
  obtain r3 s3 where c3:
    "apsCalled i (UploadFileCall ?bKey ?oKey path) (\<lambda>now. uploadFile ax now ?bKey ?oKey path) s2
       = (r3, s3)"
    by (cases "apsCalled i (UploadFileCall ?bKey ?oKey path)
                 (\<lambda>now. uploadFile ax now ?bKey ?oKey path) s2")
  have a3: "stepOf i s s3" "timers s3 = timers s"
    using stepOf_trans[OF a2 stepOf_apsCalled[of i s2 "UploadFileCall ?bKey ?oKey path"
          "\<lambda>now. uploadFile ax now ?bKey ?oKey path"]] apsCalled_frame[OF c3] c3 a2(2)
    by simp_all
  show ?thesis
  proof (cases r2)
    case (Inl e)
    then have "processFile ax i fType path origName s = catch_apsError i e s2"
      using True c2 by (simp add: processFile_def s1_def[symmetric] Let_def)
    then show ?thesis using stepOf_trans[OF a2 stepOf_catch] by simp
  next
    case bucket: (Inr bucket)
    show ?thesis
    proof (cases r3)
      case (Inl e)
      then have "processFile ax i fType path origName s = catch_apsError i e s3"
        using True c2 c3 bucket by (simp add: processFile_def s1_def[symmetric] Let_def)
      then show ?thesis using stepOf_trans[OF a3 stepOf_catch] by simp
    next
      case up: (Inr uploadResult)
      let ?urn = "encodeBase64Url (objectId uploadResult)"
      obtain r4 s4 where c4:
        "apsCalled i (TranslateFileCall ?urn) (\<lambda>now. translateFile ax now ?urn) s3 = (r4, s4)"
        by (cases "apsCalled i (TranslateFileCall ?urn) (\<lambda>now. translateFile ax now ?urn) s3")
      have a4: "stepOf i s s4" "timers s4 = timers s"
        using stepOf_trans[OF a3 stepOf_apsCalled[of i s3 "TranslateFileCall ?urn"
              "\<lambda>now. translateFile ax now ?urn"]] apsCalled_frame[OF c4] c4 a3(2)
        by simp_all
      show ?thesis
      proof (cases r4)
        case (Inl e)
        then have "processFile ax i fType path origName s = catch_apsError i e s4"
          using True c2 c3 c4 bucket up by (simp add: processFile_def s1_def[symmetric] Let_def)
        then show ?thesis using stepOf_trans[OF a4 stepOf_catch] by simp
      next
        case (Inr job)
        then have "processFile ax i fType path origName s
            = setTimeout (CheckStatus i ?urn ?bKey ?oKey 0) 10000 s4"
          using True c2 c3 c4 bucket up by (simp add: processFile_def s1_def[symmetric] Let_def)
        moreover have "stepOf i s4 (setTimeout (CheckStatus i ?urn ?bKey ?oKey 0) 10000 s4)"
          by (rule stepOf_setTimeout) simp
        ultimately show ?thesis using stepOf_trans[OF a4] by simp
      qed
    qed
  qed
qed

lemma wellTimed_stepOf: "wellTimed s \<Longrightarrow> stepOf i s s' \<Longrightarrow> wellTimed s'"
  unfolding wellTimed_def stepOf_def
  by (auto simp add: sorted_enqueue set_enqueue)

lemma sane_stepOf: "sane s \<Longrightarrow> i < currentId (storage s) \<Longrightarrow> stepOf i s s' \<Longrightarrow> sane s'"
proof -
  assume sn: "sane s" and i: "i < currentId (storage s)" and st: "stepOf i s s'"
  have w: "wellTimed s'" using sn st wellTimed_stepOf by (auto simp add: sane_def)
  have t: "\<forall>x \<in> set (timers s'). taskFile (snd x) < currentId (storage s')"
    using sn i st unfolding sane_def stepOf_def by (auto simp add: set_enqueue)
  have c: "\<forall>c \<in> set (remoteCalls s'). fst (snd c) < currentId (storage s')"
    using sn i st unfolding sane_def stepOf_def by auto
  show ?thesis using w t c by (simp add: sane_def)
qed

lemma ownView_stepOf: "stepOf j s s' \<Longrightarrow> j \<noteq> i \<Longrightarrow> ownView i s' = ownView i s"
  unfolding stepOf_def ownView_def
  by (auto simp add: ownTasks_enqueue_other)

lemma pop_wellTimed:
  "wellTimed s \<Longrightarrow> timers s = (due, t) # rest \<Longrightarrow>
   max (clock s) due = due \<and> wellTimed (s\<lparr>timers := rest, clock := due\<rparr>)"
  by (auto simp add: wellTimed_def)

lemma fire_idle: "timers s = [] \<Longrightarrow> fire ax s = s"
  by (simp add: fire_def)

lemma fire_pop:
  "wellTimed s \<Longrightarrow> timers s = (due, t) # rest \<Longrightarrow>
   fire ax s = runTask ax t (s\<lparr>timers := rest, clock := due\<rparr>)"
  using pop_wellTimed[of s due t rest] by (simp add: fire_def)

lemma sane_fire: "sane s \<Longrightarrow> sane (fire ax s)"
proof (cases "timers s")
  case Nil
  assume "sane s"
  then show ?thesis using Nil by (simp add: fire_idle)
next
  case (Cons x rest)
  assume sn: "sane s"
  obtain due t where x: "x = (due, t)" by (cases x)
  define s0 where "s0 = s\<lparr>timers := rest, clock := due\<rparr>"
  have w: "wellTimed s" using sn by (simp add: sane_def)
  have f: "fire ax s = runTask ax t s0"
    using fire_pop[OF w, of due t rest] Cons x by (simp add: s0_def)
  have s0: "sane s0"
    using sn pop_wellTimed[OF w, of due t rest] Cons x by (simp add: sane_def s0_def)
  have "taskFile t < currentId (storage s0)"
    using sn Cons x by (simp add: sane_def s0_def)
  then show ?thesis using f sane_stepOf[OF s0 _ stepOf_runTask] by simp
qed

lemma fire_other:
  "wellTimed s \<Longrightarrow> timers s = (due, t) # rest \<Longrightarrow> taskFile t \<noteq> i \<Longrightarrow>
   ownView i (fire ax s) = ownView i s"
proof -
  assume w: "wellTimed s" and tm: "timers s = (due, t) # rest" and o: "taskFile t \<noteq> i"
  have "ownView i (runTask ax t (s\<lparr>timers := rest, clock := due\<rparr>))
      = ownView i (s\<lparr>timers := rest, clock := due\<rparr>)"
    using ownView_stepOf[OF stepOf_runTask o] .
  also have "\<dots> = ownView i s"
    using tm o by (simp add: ownView_def ownTasks_def callsFor_def)
  finally show ?thesis using fire_pop[OF w tm] by simp
qed

lemma uploadOne_effect:
  "\<exists>s1. currentId (storage s1) = currentId (storage s) + 1
     \<and> clock s1 = clock s \<and> timers s1 = timers s \<and> remoteCalls s1 = remoteCalls s
     \<and> (\<forall>j. j \<noteq> currentId (storage s) \<longrightarrow> files (storage s1) j = files (storage s) j)
     \<and> observe (currentId (storage s)) s1 = Some (FILE_STATUS_UPLOADING, None, None, None)
     \<and> map_option fileType (files (storage s1) (currentId (storage s))) = Some (fileType row)
     \<and> uploadOne ax row s
         = processFile ax (currentId (storage s)) (fileType row) (filePath row)
             (originalName row) s1"
  by (rule exI[of _ "s\<lparr>storage := snd (createFile (clock s)
        (row\<lparr>status := FILE_STATUS_UPLOADING, errorMessage := None, metadata := None\<rparr>)
        (storage s))\<rparr>"])
    (simp add: uploadOne_def createFile_def Let_def observe_def InsertFile.extend_def
      File.fields_def)

lemma sane_uploadOne: "sane s \<Longrightarrow> sane (uploadOne ax row s)"
proof -
  assume sn: "sane s"
  obtain s1 where e: "currentId (storage s1) = currentId (storage s) + 1"
    "clock s1 = clock s" "timers s1 = timers s" "remoteCalls s1 = remoteCalls s"
    and u: "uploadOne ax row s
         = processFile ax (currentId (storage s)) (fileType row) (filePath row)
             (originalName row) s1"
    using uploadOne_effect[of s row ax] by blast
  have "sane s1" using sn e by (auto simp add: sane_def wellTimed_def)
  moreover have "currentId (storage s) < currentId (storage s1)" using e by simp
  ultimately show ?thesis using u sane_stepOf[OF _ _ stepOf_processFile] by simp
qed

lemma uploadOne_other:
  "i < currentId (storage s) \<Longrightarrow>
   ownView i (uploadOne ax row s) = ownView i s
   \<and> i < currentId (storage (uploadOne ax row s))"
proof -
  assume i: "i < currentId (storage s)"
  obtain s1 where e: "currentId (storage s1) = currentId (storage s) + 1"
    "clock s1 = clock s" "timers s1 = timers s" "remoteCalls s1 = remoteCalls s"
    "\<forall>j. j \<noteq> currentId (storage s) \<longrightarrow> files (storage s1) j = files (storage s) j"
    and u: "uploadOne ax row s
         = processFile ax (currentId (storage s)) (fileType row) (filePath row)
             (originalName row) s1"
    using uploadOne_effect[of s row ax] by blast
  have v1: "ownView i s1 = ownView i s"
    using e i by (simp add: ownView_def callsFor_def)
  have st: "stepOf (currentId (storage s)) s1 (uploadOne ax row s)"
    unfolding u by (rule stepOf_processFile)
  have "ownView i (uploadOne ax row s) = ownView i s1"
    using ownView_stepOf[OF st] i by simp
  moreover have "currentId (storage (uploadOne ax row s)) = currentId (storage s1)"
    using st by (simp add: stepOf_def)
  ultimately show ?thesis using v1 e i by simp
qed

lemma sane_patch: "sane s \<Longrightarrow> sane (snd (patchFileStatus i ns msg s))"
  by (cases "files (storage s) i")
    (auto simp add: patchFileStatus_def updateFileStatus_absent updateFileStatus_present
      sane_def wellTimed_def)

lemma patch_other:
  "j \<noteq> i \<Longrightarrow> ownView i (snd (patchFileStatus j ns msg s)) = ownView i s
   \<and> currentId (storage (snd (patchFileStatus j ns msg s))) = currentId (storage s)"
  by (cases "files (storage s) j")
    (auto simp add: patchFileStatus_def updateFileStatus_absent updateFileStatus_present
      ownView_def callsFor_def)

lemma sane_delete: "sane s \<Longrightarrow> sane (snd (deleteFileRoute i s))"
  by (auto simp add: deleteFileRoute_def deleteFile_def sane_def wellTimed_def)

lemma delete_other:
  "j \<noteq> i \<Longrightarrow> ownView i (snd (deleteFileRoute j s)) = ownView i s
   \<and> currentId (storage (snd (deleteFileRoute j s))) = currentId (storage s)"
  by (auto simp add: deleteFileRoute_def deleteFile_def ownView_def callsFor_def)

lemma token_frame:
  "storage (snd (tokenRoute ax s)) = storage s \<and> timers (snd (tokenRoute ax s)) = timers s
   \<and> clock (snd (tokenRoute ax s)) = clock s
   \<and> remoteCalls (snd (tokenRoute ax s)) = remoteCalls s
   \<and> unhandledRejections (snd (tokenRoute ax s)) = unhandledRejections s"
  by (simp add: tokenRoute_def split: prod.splits)

lemma sane_token: "sane s \<Longrightarrow> sane (snd (tokenRoute ax s))"
  by (simp add: sane_def wellTimed_def token_frame)

lemma token_other:
  "ownView i (snd (tokenRoute ax s)) = ownView i s
   \<and> currentId (storage (snd (tokenRoute ax s))) = currentId (storage s)"
  by (simp add: ownView_def callsFor_def token_frame)

lemma sane_elapse: "sane s \<Longrightarrow> sane (elapse n s)"
  by (cases "timers s") (auto simp add: elapse_def sane_def wellTimed_def)

lemma elapse_other:
  "ownView i (elapse n s) = ownView i s
   \<and> currentId (storage (elapse n s)) = currentId (storage s)"
  by (simp add: elapse_def ownView_def callsFor_def)

lemma sane_handle: "sane s \<Longrightarrow> sane (handle ax e s)"
  by (cases e)
    (simp_all add: sane_uploadOne sane_patch sane_delete sane_token sane_elapse sane_fire)

lemma sane_serve: "sane s \<Longrightarrow> sane (serve ax evs s)"
  unfolding serve_def by (induction evs arbitrary: s) (simp_all add: sane_handle)

lemma sane_start: "sane (startServer cid secret w)"
  by (simp add: sane_def wellTimed_def startServer_def)

lemma currentId_fire: "currentId (storage (fire ax s)) = currentId (storage s)"
proof (cases "timers s")
  case Nil
  then show ?thesis by (simp add: fire_idle)
next
  case (Cons x rest)
  obtain due t where x: "x = (due, t)" by (cases x)
  show ?thesis
    using stepOf_runTask[of t "s\<lparr>timers := rest, clock := max (clock s) due\<rparr>" ax] Cons x
    by (simp add: fire_def stepOf_def)
qed

lemma run_fire: "run ax s = (if timers s = [] then s else run ax (fire ax s))"
  by (cases "timers s") (auto simp add: run_idle run_step fire_def)

lemma run_invariant:
  "(\<And>s. P s \<Longrightarrow> P (fire ax s)) \<Longrightarrow> P st \<Longrightarrow> P (run ax st) \<and> timers (run ax st) = []"
proof (induction ax st rule: run.induct)
  case (1 ax st)
  show ?case
  proof (cases "timers st")
    case Nil
    then show ?thesis using "1.prems" by (simp add: run_idle)
  next
    case (Cons x rest)
    obtain due t where x: "x = (due, t)" by (cases x)
    have f: "fire ax st = runTask ax t (st\<lparr>timers := rest, clock := max (clock st) due\<rparr>)"
      using Cons x by (simp add: fire_def)
    have "P (fire ax st)" using "1.prems" by blast
    then have "P (run ax (fire ax st)) \<and> timers (run ax (fire ax st)) = []"
      using "1.IH"[OF Cons x[symmetric]] "1.prems"(1) f by simp
    then show ?thesis using Cons by (simp add: run_fire[of ax st])
  qed
qed

lemma sane_fresh:
  "sane s \<Longrightarrow> ownTasks (currentId (storage s)) (timers s) = []
     \<and> callsFor (currentId (storage s)) s = []"
  by (auto simp add: sane_def ownTasks_def callsFor_def filter_empty_conv)

lemma ownView_parts:
  "ownView i s' = ownView i s \<Longrightarrow>
   observe i s' = observe i s \<and> callsFor i s' = callsFor i s
   \<and> ownTasks i (timers s') = ownTasks i (timers s)
   \<and> pollTimesFor i s' = pollTimesFor i s \<and> statusOf i s' = statusOf i s"
  by (simp add: ownView_def observe_def pollTimesFor_def statusOf_def)

text \<open>A request that leaves file \<open>i\<close> alone, or a timer of another file that fires.\<close>

lemma handle_other:
  assumes sn: "sane s" and i: "i < currentId (storage s)" and e: "eventFile e \<noteq> Some i"
    and f: "e = Fired \<Longrightarrow> timers s = [] \<or> taskFile (snd (hd (timers s))) \<noteq> i"
  shows "ownView i (handle ax e s) = ownView i s \<and> i < currentId (storage (handle ax e s))"
proof (cases e)
  case (Uploaded row)
  then show ?thesis using uploadOne_other[OF i] by simp
next
  case (Patched j ns msg)
  then show ?thesis using e i patch_other[of j i ns msg s] by simp
next
  case (Deleted j)
  then show ?thesis using e i delete_other[of j i s] by simp
next
  case (Elapsed n)
  then show ?thesis using i elapse_other[of i n s] by simp
next
  case TokenRequested
  then show ?thesis using i token_other[of i ax s] by simp
next
  case Fired
  show ?thesis
  proof (cases "timers s")
    case Nil
    then show ?thesis using Fired i by (simp add: fire_idle)
  next
    case (Cons x rest)
    obtain due t where x: "x = (due, t)" by (cases x)
    have o: "taskFile t \<noteq> i" using f[OF Fired] Cons x by simp
    have w: "wellTimed s" using sn by (simp add: sane_def)
    show ?thesis
      using fire_other[OF w _ o, of due rest ax] Cons x Fired i currentId_fire[of ax s]
      by simp
  qed
qed

lemma ownTasks_head:
  "timers s = (due, t) # rest \<Longrightarrow> taskFile t = i \<Longrightarrow> ownTasks i (timers s) = [x] \<Longrightarrow>
   x = (due, t) \<and> ownTasks i rest = []"
  by (simp add: ownTasks_def)

lemma standardReady_own:
  "observe i s = Some (s0, e0, m0, p0) \<Longrightarrow>
   observe i (standardReady i s)
     = Some (FILE_STATUS_READY, None, Some (JSON_stringify standardMetadata), Some (clock s))
   \<and> timers (standardReady i s) = timers s
   \<and> remoteCalls (standardReady i s) = remoteCalls s
   \<and> apsService (standardReady i s) = apsService s
   \<and> remote (standardReady i s) = remote s"
proof -
  assume ob: "observe i s = Some (s0, e0, m0, p0)"
  have "observe i (standardReady_await1 i s) = Some (''ready'', None, m0, Some (clock s))"
    using observe_updateFileStatus[OF ob, of "''ready''" None]
    by (simp add: standardReady_await1_def FILE_STATUS_READY_def orNull_def)
  then show ?thesis
    using observe_updateFileMetadata
    by (simp add: standardReady_def standardReady_await1_def FILE_STATUS_READY_def
        status_frame metadata_frame)
qed

lemma standardPhase_upload:
  assumes sn: "sane st" and ft: "fileType row \<noteq> FILE_TYPES_AUTOCAD"
  shows "standardPhase (currentId (storage st)) (clock st + 1000) (uploadOne ax row st)
    \<and> ownTasks (currentId (storage st)) (timers (uploadOne ax row st))
        = [(clock st + 1000, StandardReady (currentId (storage st)))]
    \<and> observe (currentId (storage st)) (uploadOne ax row st)
        = Some (FILE_STATUS_UPLOADING, None, None, None)"
proof -
  let ?i = "currentId (storage st)"
  obtain s1 where e: "currentId (storage s1) = ?i + 1"
    "clock s1 = clock st" "timers s1 = timers st" "remoteCalls s1 = remoteCalls st"
    "observe ?i s1 = Some (FILE_STATUS_UPLOADING, None, None, None)"
    and u: "uploadOne ax row st
         = processFile ax ?i (fileType row) (filePath row) (originalName row) s1"
    using uploadOne_effect[of st row ax] by blast
  have p: "uploadOne ax row st = setTimeout (StandardReady ?i) 1000 s1"
    using u ft by (simp add: processFile_def)
  have fr: "ownTasks ?i (timers s1) = []" "callsFor ?i s1 = []"
    using sane_fresh[OF sn] e by (simp_all add: callsFor_def)
  have t: "ownTasks ?i (timers (uploadOne ax row st)) = [(clock st + 1000, StandardReady ?i)]"
    unfolding p using fr(1) e by (simp add: setTimeout_def ownTasks_enqueue_own)
  have o: "observe ?i (uploadOne ax row st) = Some (FILE_STATUS_UPLOADING, None, None, None)"
    unfolding p using e by (simp add: setTimeout_def observe_def)
  have c: "callsFor ?i (uploadOne ax row st) = []"
    unfolding p using fr(2) by (simp add: setTimeout_def callsFor_def)
  have i: "?i < currentId (storage (uploadOne ax row st))"
    unfolding p using e by (simp add: setTimeout_def)
  show ?thesis
    using sane_uploadOne[OF sn, of ax row] t o c i by (simp add: standardPhase_def)
qed

lemma standardPhase_handle:
  assumes ph: "standardPhase i t1 s" and e: "eventFile e \<noteq> Some i"
  shows "standardPhase i t1 (handle ax e s)"
proof -
  have sn: "sane s" and i: "i < currentId (storage s)"
    using ph by (simp_all add: standardPhase_def)
  have sn': "sane (handle ax e s)" using sn by (rule sane_handle)
  show ?thesis
  proof (cases "e = Fired \<and> timers s \<noteq> [] \<and> taskFile (snd (hd (timers s))) = i")
    case False
    then have "ownView i (handle ax e s) = ownView i s \<and> i < currentId (storage (handle ax e s))"
      using handle_other[OF sn i e, of ax] by blast
    then show ?thesis
      using ph sn' ownView_parts[of i "handle ax e s" s] by (simp add: standardPhase_def)
  next
    case True
    then obtain due t rest where tm: "timers s = (due, t) # rest" and own: "taskFile t = i"
      by (cases "timers s") auto
    have ne: "ownTasks i (timers s) \<noteq> []" using tm own by (simp add: ownTasks_def)
    then have pend: "ownTasks i (timers s) = [(t1, StandardReady i)]"
      and ob: "observe i s = Some (FILE_STATUS_UPLOADING, None, None, None)"
      and cf: "callsFor i s = []"
      using ph by (auto simp add: standardPhase_def)
    have hdeq: "due = t1" "t = StandardReady i" and rest: "ownTasks i rest = []"
      using ownTasks_head[OF tm own pend] by simp_all
    define s0 where "s0 = s\<lparr>timers := rest, clock := due\<rparr>"
    have w: "wellTimed s" using sn by (simp add: sane_def)
    have f: "handle ax e s = standardReady i s0"
      using True fire_pop[OF w tm, of ax] hdeq by (simp add: s0_def)
    have ob0: "observe i s0 = Some (FILE_STATUS_UPLOADING, None, None, None)"
      using ob by (simp add: observe_def s0_def)
    note r = standardReady_own[OF ob0]
    have "observe i (handle ax e s)
        = Some (FILE_STATUS_READY, None, Some (JSON_stringify standardMetadata), Some t1)"
      using r f hdeq by (simp add: s0_def)
    moreover have "ownTasks i (timers (handle ax e s)) = []"
      using r f rest by (simp add: s0_def)
    moreover have "callsFor i (handle ax e s) = []"
      using r f cf by (simp add: s0_def callsFor_def)
    moreover have "i < currentId (storage (handle ax e s))"
      using True i currentId_fire[of ax s] by simp
    ultimately show ?thesis using sn' by (simp add: standardPhase_def)
  qed
qed

lemma standardPhase_serve:
  "standardPhase i t1 s \<Longrightarrow> leaveAlone i evs \<Longrightarrow> standardPhase i t1 (serve ax evs s)"
  unfolding serve_def leaveAlone_def
  by (induction evs arbitrary: s) (simp_all add: standardPhase_handle)

lemma standardPhase_run:
  "standardPhase i t1 s \<Longrightarrow>
   standardPhase i t1 (run ax s) \<and> timers (run ax s) = []"
proof (rule run_invariant)
  fix s :: "'a sys"
  assume "standardPhase i t1 s"
  then show "standardPhase i t1 (fire ax s)"
    using standardPhase_handle[of i t1 s Fired ax] by simp
qed

section \<open>Steps of the standard path\<close>

lemma standardMetadata_text:
  \<open>JSON_stringify standardMetadata = ''{"viewerType":"standard","processed":true}''\<close>
  by (simp add: standardMetadata_def quoteString_def escapeChar_def dquote_def backslash_def)

lemma observe_statusOf: "observe i st = Some (s, e, m, p) \<Longrightarrow> statusOf i st = Some s"
  by (auto simp add: observe_def statusOf_def)

lemma statusOf_observe:
  "statusOf i st \<noteq> None \<Longrightarrow> \<exists>s e m p. observe i st = Some (s, e, m, p)"
  by (auto simp add: observe_def statusOf_def)

lemma standard_steps:
  "fType \<noteq> FILE_TYPES_AUTOCAD \<Longrightarrow>
     storage (processFile ax j fType path origName s) = storage s
   \<and> timers (processFile ax j fType path origName s)
       = enqueue (clock s + 1000, StandardReady j) (timers s)
   \<and> remoteCalls (processFile ax j fType path origName s) = remoteCalls s
   \<and> apsService (processFile ax j fType path origName s) = apsService s
   \<and> remote (processFile ax j fType path origName s) = remote s
   \<and> remoteCalls (standardReady j s) = remoteCalls s
   \<and> apsService (standardReady j s) = apsService s
   \<and> remote (standardReady j s) = remote s"
  by (simp add: processFile_def setTimeout_def standardReady_def standardReady_await1_def
      status_frame metadata_frame)

lemmas server_defs = serve_def uploadOne_def startServer_def sampleServer_def fire_def elapse_def
  deleteFileRoute_def tokenRoute_def getViewerToken_def dwgFile_def pdfFile_def callsFor_def ownTasks_def pollTimesFor_def
  leaveAlone_def statusOf_def

lemma dwg_then: 
  "currentId (storage (serve fakeAxios [Uploaded dwgFile] (sampleServer script))) = 2
   \<and> clock (serve fakeAxios [Uploaded dwgFile] (sampleServer script)) = 0
   \<and> map fst (timers (serve fakeAxios [Uploaded dwgFile] (sampleServer script))) = [10000]"
  by (simp add: eval_defs server_defs)

section \<open>Steps of the poll loop\<close>

















section \<open>Ready records and their metadata\<close>































section \<open>Requests that address the record of a running pipeline\<close>

lemma addressed_keeps:
  "eventFile e = Some i \<Longrightarrow>
   timers (handle ax e s) = timers s \<and> remoteCalls (handle ax e s) = remoteCalls s
   \<and> currentId (storage (handle ax e s)) = currentId (storage s)"
proof (cases e)
  case (Patched j ns msg)
  then show ?thesis
    by (cases "files (storage s) j")
      (simp_all add: patchFileStatus_def updateFileStatus_absent updateFileStatus_present)
next
  case (Deleted j)
  then show ?thesis by (simp add: deleteFileRoute_def deleteFile_def)
qed simp_all

lemma addressed_own:
  "eventFile e = Some j \<Longrightarrow>
   ownTasks i (timers (handle ax e s)) = ownTasks i (timers s)
   \<and> callsFor i (handle ax e s) = callsFor i s
   \<and> pollTimesFor i (handle ax e s) = pollTimesFor i s
   \<and> (i < currentId (storage s) \<longrightarrow> i < currentId (storage (handle ax e s)))"
  using addressed_keeps[of e j ax s] by (simp add: callsFor_def pollTimesFor_def)







lemma standardOnly_handle:
  assumes ph: "standardOnly i s"
  shows "standardOnly i (handle ax e s)"
proof -
  have sn: "sane s" and i: "i < currentId (storage s)"
    using ph by (simp_all add: standardOnly_def)
  have sn': "sane (handle ax e s)" using sn by (rule sane_handle)
  have keep: "standardOnly i s'"
    if "sane s'" "ownTasks i (timers s') = ownTasks i (timers s)"
      "callsFor i s' = callsFor i s" "i < currentId (storage s')" for s' :: "'a sys"
    using ph that by (simp add: standardOnly_def)
  show ?thesis
  proof (cases "eventFile e")
    case (Some j)
    then show ?thesis using keep[OF sn'] addressed_own[OF Some, of i ax s] i by simp
  next
    case None
    show ?thesis
    proof (cases "e = Fired \<and> timers s \<noteq> [] \<and> taskFile (snd (hd (timers s))) = i")
      case False
      then have "ownView i (handle ax e s) = ownView i s \<and> i < currentId (storage (handle ax e s))"
        using handle_other[OF sn i, of e ax] None by auto
      then show ?thesis using keep[OF sn'] ownView_parts[of i "handle ax e s" s] by simp
    next
      case True
      then obtain due t rest where tm: "timers s = (due, t) # rest" and own: "taskFile t = i"
        by (cases "timers s") auto
      have all: "list_all (\<lambda>x. snd x = StandardReady i) (ownTasks i (timers s))"
        and cf: "callsFor i s = []"
        using ph by (simp_all add: standardOnly_def)
      have t: "t = StandardReady i" and rest: "list_all (\<lambda>x. snd x = StandardReady i) (ownTasks i rest)"
        using all tm own by (simp_all add: ownTasks_def)
      define s0 where "s0 = s\<lparr>timers := rest, clock := due\<rparr>"
      have w: "wellTimed s" using sn by (simp add: sane_def)
      have f: "handle ax e s = standardReady i s0"
        using True fire_pop[OF w tm, of ax] t by (simp add: s0_def)
      have fr: "timers (standardReady i s0) = rest" "remoteCalls (standardReady i s0) = remoteCalls s"
        by (simp_all add: standardReady_def standardReady_await1_def status_frame metadata_frame
            s0_def)
      have i2: "i < currentId (storage (handle ax e s))"
        using currentId_fire[of ax s] i True by simp
      show ?thesis
        unfolding standardOnly_def using sn' i2 fr rest cf unfolding f
        by (simp add: callsFor_def)
    qed
  qed
qed

lemma standardOnly_serve: "standardOnly i s \<Longrightarrow> standardOnly i (serve ax evs s)"
  unfolding serve_def
  by (induction evs arbitrary: s) (simp_all add: standardOnly_handle)

lemma standardOnly_run:
  "standardOnly i s \<Longrightarrow> standardOnly i (run ax s) \<and> timers (run ax s) = []"
proof (rule run_invariant)
  fix s :: "'a sys"
  assume "standardOnly i s"
  then show "standardOnly i (fire ax s)"
    using standardOnly_handle[of i s ax Fired] by simp
qed

lemma standardPhase_only: "standardPhase i t1 s \<Longrightarrow> standardOnly i s"
  unfolding standardPhase_def standardOnly_def by auto

section \<open>The standard path of an uploaded file\<close>

text \<open>
  Claim C6, as the code has it. Take any state the server has reached, whatever
  pipelines of other files are pending there, and upload a file whose detected type is
  not \<open>autocad\<close>. The new record is \<open>uploading\<close> when the handler returns and one
  callback for it is due 1000 ms later. Whatever happens afterwards, no call of the
  remote client is ever made for the file, and once the timers have run none is left.
  As long as no request addresses the record, it is \<open>uploading\<close> or \<open>ready\<close> at
  every later moment, never \<open>processing\<close>, and once the timers have run it is
  \<open>ready\<close> with the metadata of the standard viewer and the processing time of the
  callback. The two steps of the path, \<open>processFile\<close> and the callback, leave the call
  record, the token cache and the remote service as they are, in every state.
\<close>

theorem standard_path:
  "fileType upl \<noteq> FILE_TYPES_AUTOCAD \<longrightarrow>
   (let st = serve ax before (startServer cid secret w);
        i = currentId (storage st);
        up = uploadOne ax upl st;
        mid = serve ax after up;
        fin = run ax mid
    in observe i up = Some (FILE_STATUS_UPLOADING, None, None, None)
     \<and> ownTasks i (timers up) = [(clock st + 1000, StandardReady i)]
     \<and> callsFor i up = []
     \<and> callsFor i mid = []
     \<and> callsFor i fin = []
     \<and> timers fin = []
     \<and> (leaveAlone i after \<longrightarrow>
          (statusOf i mid = Some FILE_STATUS_UPLOADING \<or> statusOf i mid = Some FILE_STATUS_READY)
          \<and> observe i fin
              = Some (FILE_STATUS_READY, None, Some (JSON_stringify standardMetadata),
                      Some (clock st + 1000)))
     \<and> storage (processFile ax j (fileType upl) path origName s) = storage s
     \<and> timers (processFile ax j (fileType upl) path origName s)
         = enqueue (clock s + 1000, StandardReady j) (timers s)
     \<and> remoteCalls (processFile ax j (fileType upl) path origName s) = remoteCalls s
     \<and> apsService (processFile ax j (fileType upl) path origName s) = apsService s
     \<and> remote (processFile ax j (fileType upl) path origName s) = remote s
     \<and> remoteCalls (standardReady j s) = remoteCalls s
     \<and> apsService (standardReady j s) = apsService s
     \<and> remote (standardReady j s) = remote s)"
proof (intro impI)
  assume ft: "fileType upl \<noteq> FILE_TYPES_AUTOCAD"
  define st where "st = serve ax before (startServer cid secret w)"
  define i where "i = currentId (storage st)"
  define up where "up = uploadOne ax upl st"
  define mid where "mid = serve ax after up"
  define fin where "fin = run ax mid"
  have sn: "sane st" unfolding st_def by (rule sane_serve) (rule sane_start)
  have u: "standardPhase i (clock st + 1000) up"
    "ownTasks i (timers up) = [(clock st + 1000, StandardReady i)]"
    "observe i up = Some (FILE_STATUS_UPLOADING, None, None, None)"
    using standardPhase_upload[OF sn ft, of ax] by (simp_all add: i_def up_def)
  have uo: "standardOnly i up" using u(1) by (rule standardPhase_only)
  have mo: "standardOnly i mid" unfolding mid_def using uo by (rule standardOnly_serve)
  have fo: "standardOnly i fin" "timers fin = []"
    unfolding fin_def using standardOnly_run[OF mo, of ax] by simp_all
  have calls: "callsFor i up = []" "callsFor i mid = []" "callsFor i fin = []"
    using uo mo fo(1) by (simp_all add: standardOnly_def)
  have alone: "(statusOf i mid = Some FILE_STATUS_UPLOADING \<or> statusOf i mid = Some FILE_STATUS_READY)
          \<and> observe i fin
              = Some (FILE_STATUS_READY, None, Some (JSON_stringify standardMetadata),
                      Some (clock st + 1000))"
    if la: "leaveAlone i after"
  proof -
    have m: "standardPhase i (clock st + 1000) mid"
      unfolding mid_def using u(1) la by (rule standardPhase_serve)
    have f: "standardPhase i (clock st + 1000) fin"
      unfolding fin_def using standardPhase_run[OF m, of ax] by simp
    have "statusOf i mid = Some FILE_STATUS_UPLOADING \<or> statusOf i mid = Some FILE_STATUS_READY"
      using m by (auto simp add: standardPhase_def observe_statusOf)
    moreover have "observe i fin
        = Some (FILE_STATUS_READY, None, Some (JSON_stringify standardMetadata),
                Some (clock st + 1000))"
      using f fo(2) by (auto simp add: standardPhase_def ownTasks_def)
    ultimately show ?thesis by simp
  qed
  show "(let st = serve ax before (startServer cid secret w);
        i = currentId (storage st);
        up = uploadOne ax upl st;
        mid = serve ax after up;
        fin = run ax mid
    in observe i up = Some (FILE_STATUS_UPLOADING, None, None, None)
     \<and> ownTasks i (timers up) = [(clock st + 1000, StandardReady i)]
     \<and> callsFor i up = []
     \<and> callsFor i mid = []
     \<and> callsFor i fin = []
     \<and> timers fin = []
     \<and> (leaveAlone i after \<longrightarrow>
          (statusOf i mid = Some FILE_STATUS_UPLOADING \<or> statusOf i mid = Some FILE_STATUS_READY)
          \<and> observe i fin
              = Some (FILE_STATUS_READY, None, Some (JSON_stringify standardMetadata),
                      Some (clock st + 1000)))
     \<and> storage (processFile ax j (fileType upl) path origName s) = storage s
     \<and> timers (processFile ax j (fileType upl) path origName s)
         = enqueue (clock s + 1000, StandardReady j) (timers s)
     \<and> remoteCalls (processFile ax j (fileType upl) path origName s) = remoteCalls s
     \<and> apsService (processFile ax j (fileType upl) path origName s) = apsService s
     \<and> remote (processFile ax j (fileType upl) path origName s) = remote s
     \<and> remoteCalls (standardReady j s) = remoteCalls s
     \<and> apsService (standardReady j s) = apsService s
     \<and> remote (standardReady j s) = remote s)"
    unfolding Let_def st_def[symmetric] i_def[symmetric] up_def[symmetric]
      mid_def[symmetric] fin_def[symmetric]
    using u(2,3) calls fo(2) alone standard_steps[OF ft, of ax j path origName s]
    by simp
qed

text \<open>
  The upload of \<open>spec.pdf\<close> while the poll of \<open>plan.dwg\<close> is pending, followed by a
  retry request for the other record: ready at time 1000 with the standard metadata,
  and no remote call for it.
\<close>

theorem standard_path_witness:
  \<open>fileType pdfFile \<noteq> FILE_TYPES_AUTOCAD
   \<and> leaveAlone 2 [Patched 1 ''processing'' None, Elapsed 400]
   \<and> map fst (timers (serve fakeAxios [Uploaded dwgFile] (sampleServer []))) = [10000]
   \<and> observe 2 (run fakeAxios (serve fakeAxios [Patched 1 ''processing'' None, Elapsed 400]
        (uploadOne fakeAxios pdfFile (serve fakeAxios [Uploaded dwgFile] (sampleServer [])))))
       = Some (''ready'', None, Some ''{"viewerType":"standard","processed":true}'', Some 1000)
   \<and> callsFor 2 (run fakeAxios (serve fakeAxios [Patched 1 ''processing'' None, Elapsed 400]
        (uploadOne fakeAxios pdfFile (serve fakeAxios [Uploaded dwgFile] (sampleServer [])))))
       = []\<close>
proof -
  have h1: "fileType pdfFile \<noteq> FILE_TYPES_AUTOCAD"
    by (simp add: pdfFile_def uploadedRow_def FILE_TYPES_AUTOCAD_def)
  have h2: "leaveAlone 2 [Patched 1 ''processing'' None, Elapsed 400]"
    by (simp add: leaveAlone_def)
  show ?thesis
    using standard_path[where upl=pdfFile and ax=fakeAxios and before="[Uploaded dwgFile]"
        and after="[Patched 1 ''processing'' None, Elapsed 400]"
        and cid="''id''" and secret="''secret''"
        and w="\<lparr>fr_buckets = [], fr_manifests = []\<rparr>"]
      h1 h2 dwg_then[of "[]"]
    by (simp add: sampleServer_def Let_def standardMetadata_text FILE_STATUS_READY_def)
qed

text \<open>
  Claim C6 as stated fails: the record is never \<open>processing\<close>. After the call of
  \<open>processFile\<close> it is still \<open>uploading\<close>, and the timer's callback writes
  \<open>ready\<close> with its first write.
\<close>

theorem standard_path_counterexample:
  "observe 1 pdfUpload = Some (''uploading'', None, None, None)
   \<and> observe 1 (processFile fakeAxios 1 ''pdf'' ''uploads/f1'' ''spec.pdf'' pdfUpload)
        = Some (''uploading'', None, None, None)
   \<and> timers (processFile fakeAxios 1 ''pdf'' ''uploads/f1'' ''spec.pdf'' pdfUpload)
        = [(1000, StandardReady 1)]
   \<and> map_option fst (observe 1 (standardReady_await1 1 (pdfUpload\<lparr>timers := [], clock := 1000\<rparr>)))
        = Some ''ready''
   \<and> map_option fst (observe 1 (standardReady 1 (pdfUpload\<lparr>timers := [], clock := 1000\<rparr>)))
        = Some ''ready''"
  by code_simp

section \<open>The poll loop of an uploaded drawing\<close>



end
